theory Spec2Isabelle
  imports Complex_Main
begin

section \<open>The transcription worker (src/worker.js)\<close>

text \<open>
  The worker is a single JavaScript file: three module-level variables, five
  \<^verbatim>\<open>async\<close> functions and two event handlers. JavaScript runs one piece of
  synchronous code at a time; an \<^verbatim>\<open>async\<close> function runs until an
  \<^verbatim>\<open>await\<close> on an external promise, is suspended there, and is resumed when
  the promise settles. In between, other events (incoming messages, progress
  callbacks of the library, settlements of other runs) are handled.

  The embedding follows that: every source function is cut at its awaits into
  the synchronous segments it consists of, each segment is a function on the
  state of the worker, and \<open>deliver\<close> is one turn of the event loop. What the
  platform and the library do (the outcome of a promise, when callbacks are
  invoked, which messages arrive) is the input of the model.

  What is taken from the platform and the library, and not from the source:
  the imported module has the \<^verbatim>\<open>pipeline\<close> function; a pipeline that is
  built is a function, hence truthy; an audio buffer has a channel 0; the
  progress callback is called only while the pipeline is being built; and
  \<^verbatim>\<open>event.data\<close> is an object.
\<close>

subsection \<open>Values\<close>

text \<open>
  Strings are byte lists in UTF-8 (the source's Cyrillic literals are spelled
  out below); the worker only compares, concatenates and splits them at
  \<^verbatim>\<open>/\<close>, which UTF-8 preserves. Numbers are stored as rationals; their
  arithmetic and rendering are floating point and are taken from the platform
  record \<open>plat\<close>.
\<close>

type_synonym number = rat
type_synonym handle = nat
type_synonym ctx = nat
type_synonym samples = "number list"
type_synonym array_buffer = "nat list"

text \<open>An AudioBuffer of the Web Audio API: it has at least one channel.\<close>

record audio_buffer =
  channel0 :: samples
  channels_rest :: "samples list"
  sampleRate :: number
  duration :: number

record file_data =
  name_f :: string
  size_f :: number
  arrayBuffer :: array_buffer

text \<open>\<^verbatim>\<open>event.data\<close> of an incoming message: a property that is absent is \<open>None\<close>.\<close>

record event_data =
  type_e :: string
  file_e :: "file_data option"
  url_e :: "string option"

text \<open>The argument of the library's progress callback.\<close>

record progress_info =
  status_p :: string
  loaded_p :: number
  total_p :: number

record transcribe_opts =
  chunk_length_s :: number
  stride_length_s :: number
  language :: string
  task :: string
  sampling_rate :: number

record tr_result =
  text_r :: string

record response =
  ok :: bool
  status_r :: number

datatype 'a settled = Fulfilled 'a | RejectedWith string

text \<open>What the platform supplies synchronously.\<close>

record plat =
  toFixed1 :: "number \<Rightarrow> string"
  toStr :: "number \<Rightarrow> string"
  times :: "number \<Rightarrow> number \<Rightarrow> number"
  over :: "number \<Rightarrow> number \<Rightarrow> number"
  typeError :: "string \<Rightarrow> string"
  newContext :: "string + ctx"

subsection \<open>Outgoing messages and the trace\<close>

record audio_info =
  a_duration :: number
  a_sampleRate :: number
  a_numberOfChannels :: number

record file_info =
  f_name :: string
  f_size :: number

datatype payload =
    ProgressData (pstep: string) (pstatus: string) (pnote: string)
  | ResultData (rtext: string) (raudio: audio_info) (rfile: file_info)
  | Text string
  | Undefined
  | NoData

record message =
  mtype :: string
  mdata :: payload

datatype call =
    Import
  | PipelineCall
  | NewContext
  | DecodeAudioData ctx array_buffer
  | TranscriberCall handle samples transcribe_opts
  | Fetch "string option"
  | ArrayBufferOf

datatype action = Post message | Call call | Raise string | Unhandled string

datatype fname =
    OnMessage | OnError | ProcessUrl | LoadTransformers | InitModel
  | ProgressCallback | DecodeAudio | TranscribeAudio | ProcessFile

text \<open>
  The trace records what the worker does, in order: the messages it posts,
  the calls it makes to the platform and the library, the \<^verbatim>\<open>throw\<close>
  statements it executes, and the exceptions that nothing catches. An entry
  names the run that acted (\<open>None\<close> for a handler that starts no run), the
  source function the statement is in, and what it did.
\<close>

datatype entry = Entry (who: "nat option") (fn: fname) (act: action)

subsection \<open>Suspended runs and the state\<close>

datatype caller = FromMessage | FromUrl

text \<open>Where a run is suspended, with the locals that are live there.\<close>

datatype frame =
    InImport caller "file_data option"
  | InPipeline caller "file_data option"
  | InDecode caller "file_data option"
  | InTranscribe caller "file_data option" audio_buffer
  | InFetch "string option"
  | InBody "string option"

datatype pc = AtImport | AtPipeline | AtDecode | AtTranscribe

datatype 'a res = Ret 'a | Throw string | Wait pc

datatype run = Suspend frame | Return | Escape string

text \<open>
  The three module-level variables of lines 4-6, the suspended runs, the number
  of runs started so far, and everything the worker has done.
\<close>

record sys =
  transcriber :: "handle option"
  audioContext :: "ctx option"
  cancelled :: bool
  tasks :: "nat \<Rightarrow> frame option"
  next_id :: nat
  trace :: "entry list"

definition init :: sys where
  "init = \<lparr>transcriber = None, audioContext = None, cancelled = False,
            tasks = (\<lambda>r. None), next_id = 0, trace = []\<rparr>"

subsection \<open>String literals of the source\<close>

text \<open>Transliterated: \<^verbatim>\<open>Zagruzka iz CDN... (line 21)\<close>\<close>

definition msg_cdn :: string where
  "msg_cdn =
    [CHR 0xD0, CHR 0x97, CHR 0xD0, CHR 0xB0, CHR 0xD0, CHR 0xB3, CHR 0xD1, CHR 0x80,
     CHR 0xD1, CHR 0x83, CHR 0xD0, CHR 0xB7, CHR 0xD0, CHR 0xBA, CHR 0xD0, CHR 0xB0,
     CHR 0x20, CHR 0xD0, CHR 0xB8, CHR 0xD0, CHR 0xB7, CHR 0x20, CHR 0x43, CHR 0x44,
     CHR 0x4E, CHR 0x2E, CHR 0x2E, CHR 0x2E]"

text \<open>Transliterated: \<^verbatim>\<open>Ne udalos zagruzit transformers.js:  (line 15)\<close>\<close>

definition msg_import_failed :: string where
  "msg_import_failed =
    [CHR 0xD0, CHR 0x9D, CHR 0xD0, CHR 0xB5, CHR 0x20, CHR 0xD1, CHR 0x83, CHR 0xD0,
     CHR 0xB4, CHR 0xD0, CHR 0xB0, CHR 0xD0, CHR 0xBB, CHR 0xD0, CHR 0xBE, CHR 0xD1,
     CHR 0x81, CHR 0xD1, CHR 0x8C, CHR 0x20, CHR 0xD0, CHR 0xB7, CHR 0xD0, CHR 0xB0,
     CHR 0xD0, CHR 0xB3, CHR 0xD1, CHR 0x80, CHR 0xD1, CHR 0x83, CHR 0xD0, CHR 0xB7,
     CHR 0xD0, CHR 0xB8, CHR 0xD1, CHR 0x82, CHR 0xD1, CHR 0x8C, CHR 0x20, CHR 0x74,
     CHR 0x72, CHR 0x61, CHR 0x6E, CHR 0x73, CHR 0x66, CHR 0x6F, CHR 0x72, CHR 0x6D,
     CHR 0x65, CHR 0x72, CHR 0x73, CHR 0x2E, CHR 0x6A, CHR 0x73, CHR 0x3A, CHR 0x20]"

text \<open>Transliterated: \<^verbatim>\<open>Zagruzheno:  (line 42)\<close>\<close>

definition msg_loaded :: string where
  "msg_loaded =
    [CHR 0xD0, CHR 0x97, CHR 0xD0, CHR 0xB0, CHR 0xD0, CHR 0xB3, CHR 0xD1, CHR 0x80,
     CHR 0xD1, CHR 0x83, CHR 0xD0, CHR 0xB6, CHR 0xD0, CHR 0xB5, CHR 0xD0, CHR 0xBD,
     CHR 0xD0, CHR 0xBE, CHR 0x3A, CHR 0x20]"

text \<open>Transliterated: \<^verbatim>\<open>% iz  (line 42)\<close>\<close>

definition msg_pct_of :: string where
  "msg_pct_of =
    [CHR 0x25, CHR 0x20, CHR 0xD0, CHR 0xB8, CHR 0xD0, CHR 0xB7, CHR 0x20]"

text \<open>Transliterated: \<^verbatim>\<open> MB (line 42)\<close>\<close>

definition msg_mb :: string where
  "msg_mb =
    [CHR 0x20, CHR 0xD0, CHR 0x9C, CHR 0xD0, CHR 0x91]"

text \<open>Transliterated: \<^verbatim>\<open>Model zagruzhena i zakeshirovana (line 52)\<close>\<close>

definition msg_model_ready :: string where
  "msg_model_ready =
    [CHR 0xD0, CHR 0x9C, CHR 0xD0, CHR 0xBE, CHR 0xD0, CHR 0xB4, CHR 0xD0, CHR 0xB5,
     CHR 0xD0, CHR 0xBB, CHR 0xD1, CHR 0x8C, CHR 0x20, CHR 0xD0, CHR 0xB7, CHR 0xD0,
     CHR 0xB0, CHR 0xD0, CHR 0xB3, CHR 0xD1, CHR 0x80, CHR 0xD1, CHR 0x83, CHR 0xD0,
     CHR 0xB6, CHR 0xD0, CHR 0xB5, CHR 0xD0, CHR 0xBD, CHR 0xD0, CHR 0xB0, CHR 0x20,
     CHR 0xD0, CHR 0xB8, CHR 0x20, CHR 0xD0, CHR 0xB7, CHR 0xD0, CHR 0xB0, CHR 0xD0,
     CHR 0xBA, CHR 0xD1, CHR 0x8D, CHR 0xD1, CHR 0x88, CHR 0xD0, CHR 0xB8, CHR 0xD1,
     CHR 0x80, CHR 0xD0, CHR 0xBE, CHR 0xD0, CHR 0xB2, CHR 0xD0, CHR 0xB0, CHR 0xD0,
     CHR 0xBD, CHR 0xD0, CHR 0xB0]"

text \<open>Transliterated: \<^verbatim>\<open>Dekodirovanie... (line 64)\<close>\<close>

definition msg_decoding :: string where
  "msg_decoding =
    [CHR 0xD0, CHR 0x94, CHR 0xD0, CHR 0xB5, CHR 0xD0, CHR 0xBA, CHR 0xD0, CHR 0xBE,
     CHR 0xD0, CHR 0xB4, CHR 0xD0, CHR 0xB8, CHR 0xD1, CHR 0x80, CHR 0xD0, CHR 0xBE,
     CHR 0xD0, CHR 0xB2, CHR 0xD0, CHR 0xB0, CHR 0xD0, CHR 0xBD, CHR 0xD0, CHR 0xB8,
     CHR 0xD0, CHR 0xB5, CHR 0x2E, CHR 0x2E, CHR 0x2E]"

text \<open>Transliterated: \<^verbatim>\<open> kanal(a),  (line 78)\<close>\<close>

definition msg_channels :: string where
  "msg_channels =
    [CHR 0x20, CHR 0xD0, CHR 0xBA, CHR 0xD0, CHR 0xB0, CHR 0xD0, CHR 0xBD, CHR 0xD0,
     CHR 0xB0, CHR 0xD0, CHR 0xBB, CHR 0x28, CHR 0xD0, CHR 0xB0, CHR 0x29, CHR 0x2C,
     CHR 0x20]"

text \<open>Transliterated: \<^verbatim>\<open> Gts,  (line 78)\<close>\<close>

definition msg_hz :: string where
  "msg_hz =
    [CHR 0x20, CHR 0xD0, CHR 0x93, CHR 0xD1, CHR 0x86, CHR 0x2C, CHR 0x20]"

text \<open>Transliterated: \<^verbatim>\<open> sek (line 78)\<close>\<close>

definition msg_sec :: string where
  "msg_sec =
    [CHR 0x20, CHR 0xD1, CHR 0x81, CHR 0xD0, CHR 0xB5, CHR 0xD0, CHR 0xBA]"

text \<open>Transliterated: \<^verbatim>\<open>Oshibka dekodirovaniya audio:  (line 84)\<close>\<close>

definition msg_decode_failed :: string where
  "msg_decode_failed =
    [CHR 0xD0, CHR 0x9E, CHR 0xD1, CHR 0x88, CHR 0xD0, CHR 0xB8, CHR 0xD0, CHR 0xB1,
     CHR 0xD0, CHR 0xBA, CHR 0xD0, CHR 0xB0, CHR 0x20, CHR 0xD0, CHR 0xB4, CHR 0xD0,
     CHR 0xB5, CHR 0xD0, CHR 0xBA, CHR 0xD0, CHR 0xBE, CHR 0xD0, CHR 0xB4, CHR 0xD0,
     CHR 0xB8, CHR 0xD1, CHR 0x80, CHR 0xD0, CHR 0xBE, CHR 0xD0, CHR 0xB2, CHR 0xD0,
     CHR 0xB0, CHR 0xD0, CHR 0xBD, CHR 0xD0, CHR 0xB8, CHR 0xD1, CHR 0x8F, CHR 0x20,
     CHR 0xD0, CHR 0xB0, CHR 0xD1, CHR 0x83, CHR 0xD0, CHR 0xB4, CHR 0xD0, CHR 0xB8,
     CHR 0xD0, CHR 0xBE, CHR 0x3A, CHR 0x20]"

text \<open>Transliterated: \<^verbatim>\<open>Raspoznavanie... (line 90)\<close>\<close>

definition msg_recognising :: string where
  "msg_recognising =
    [CHR 0xD0, CHR 0xA0, CHR 0xD0, CHR 0xB0, CHR 0xD1, CHR 0x81, CHR 0xD0, CHR 0xBF,
     CHR 0xD0, CHR 0xBE, CHR 0xD0, CHR 0xB7, CHR 0xD0, CHR 0xBD, CHR 0xD0, CHR 0xB0,
     CHR 0xD0, CHR 0xB2, CHR 0xD0, CHR 0xB0, CHR 0xD0, CHR 0xBD, CHR 0xD0, CHR 0xB8,
     CHR 0xD0, CHR 0xB5, CHR 0x2E, CHR 0x2E, CHR 0x2E]"

text \<open>Transliterated: \<^verbatim>\<open>Tekst raspoznan (line 107)\<close>\<close>

definition msg_recognised :: string where
  "msg_recognised =
    [CHR 0xD0, CHR 0xA2, CHR 0xD0, CHR 0xB5, CHR 0xD0, CHR 0xBA, CHR 0xD1, CHR 0x81,
     CHR 0xD1, CHR 0x82, CHR 0x20, CHR 0xD1, CHR 0x80, CHR 0xD0, CHR 0xB0, CHR 0xD1,
     CHR 0x81, CHR 0xD0, CHR 0xBF, CHR 0xD0, CHR 0xBE, CHR 0xD0, CHR 0xB7, CHR 0xD0,
     CHR 0xBD, CHR 0xD0, CHR 0xB0, CHR 0xD0, CHR 0xBD]"

text \<open>Transliterated: \<^verbatim>\<open>Oshibka raspoznavaniya:  (line 113)\<close>\<close>

definition msg_transcribe_failed :: string where
  "msg_transcribe_failed =
    [CHR 0xD0, CHR 0x9E, CHR 0xD1, CHR 0x88, CHR 0xD0, CHR 0xB8, CHR 0xD0, CHR 0xB1,
     CHR 0xD0, CHR 0xBA, CHR 0xD0, CHR 0xB0, CHR 0x20, CHR 0xD1, CHR 0x80, CHR 0xD0,
     CHR 0xB0, CHR 0xD1, CHR 0x81, CHR 0xD0, CHR 0xBF, CHR 0xD0, CHR 0xBE, CHR 0xD0,
     CHR 0xB7, CHR 0xD0, CHR 0xBD, CHR 0xD0, CHR 0xB0, CHR 0xD0, CHR 0xB2, CHR 0xD0,
     CHR 0xB0, CHR 0xD0, CHR 0xBD, CHR 0xD0, CHR 0xB8, CHR 0xD1, CHR 0x8F, CHR 0x3A,
     CHR 0x20]"

text \<open>Transliterated: \<^verbatim>\<open>Zagruzka audio... (line 161)\<close>\<close>

definition msg_fetching :: string where
  "msg_fetching =
    [CHR 0xD0, CHR 0x97, CHR 0xD0, CHR 0xB0, CHR 0xD0, CHR 0xB3, CHR 0xD1, CHR 0x80,
     CHR 0xD1, CHR 0x83, CHR 0xD0, CHR 0xB7, CHR 0xD0, CHR 0xBA, CHR 0xD0, CHR 0xB0,
     CHR 0x20, CHR 0xD0, CHR 0xB0, CHR 0xD1, CHR 0x83, CHR 0xD0, CHR 0xB4, CHR 0xD0,
     CHR 0xB8, CHR 0xD0, CHR 0xBE, CHR 0x2E, CHR 0x2E, CHR 0x2E]"

text \<open>Transliterated: \<^verbatim>\<open>Ne udalos zagruzit fail:  (line 165)\<close>\<close>

definition msg_fetch_failed :: string where
  "msg_fetch_failed =
    [CHR 0xD0, CHR 0x9D, CHR 0xD0, CHR 0xB5, CHR 0x20, CHR 0xD1, CHR 0x83, CHR 0xD0,
     CHR 0xB4, CHR 0xD0, CHR 0xB0, CHR 0xD0, CHR 0xBB, CHR 0xD0, CHR 0xBE, CHR 0xD1,
     CHR 0x81, CHR 0xD1, CHR 0x8C, CHR 0x20, CHR 0xD0, CHR 0xB7, CHR 0xD0, CHR 0xB0,
     CHR 0xD0, CHR 0xB3, CHR 0xD1, CHR 0x80, CHR 0xD1, CHR 0x83, CHR 0xD0, CHR 0xB7,
     CHR 0xD0, CHR 0xB8, CHR 0xD1, CHR 0x82, CHR 0xD1, CHR 0x8C, CHR 0x20, CHR 0xD1,
     CHR 0x84, CHR 0xD0, CHR 0xB0, CHR 0xD0, CHR 0xB9, CHR 0xD0, CHR 0xBB, CHR 0x3A,
     CHR 0x20]"

text \<open>Transliterated: \<^verbatim>\<open>Obrabotka otmenena (line 195)\<close>\<close>

definition msg_cancelled_log :: string where
  "msg_cancelled_log =
    [CHR 0xD0, CHR 0x9E, CHR 0xD0, CHR 0xB1, CHR 0xD1, CHR 0x80, CHR 0xD0, CHR 0xB0,
     CHR 0xD0, CHR 0xB1, CHR 0xD0, CHR 0xBE, CHR 0xD1, CHR 0x82, CHR 0xD0, CHR 0xBA,
     CHR 0xD0, CHR 0xB0, CHR 0x20, CHR 0xD0, CHR 0xBE, CHR 0xD1, CHR 0x82, CHR 0xD0,
     CHR 0xBC, CHR 0xD0, CHR 0xB5, CHR 0xD0, CHR 0xBD, CHR 0xD0, CHR 0xB5, CHR 0xD0,
     CHR 0xBD, CHR 0xD0, CHR 0xB0]"

subsection \<open>Primitive effects\<close>

definition postMessage :: "nat option \<Rightarrow> fname \<Rightarrow> message \<Rightarrow> sys \<Rightarrow> sys" where
  "postMessage r f m s = s\<lparr>trace := trace s @ [Entry r f (Post m)]\<rparr>"

definition external :: "nat option \<Rightarrow> fname \<Rightarrow> call \<Rightarrow> sys \<Rightarrow> sys" where
  "external r f c s = s\<lparr>trace := trace s @ [Entry r f (Call c)]\<rparr>"

text \<open>A \<^verbatim>\<open>throw\<close> statement of the source, executed.\<close>

definition raise :: "nat option \<Rightarrow> fname \<Rightarrow> string \<Rightarrow> sys \<Rightarrow> sys" where
  "raise r f e s = s\<lparr>trace := trace s @ [Entry r f (Raise e)]\<rparr>"

definition unhandled :: "nat option \<Rightarrow> fname \<Rightarrow> string \<Rightarrow> sys \<Rightarrow> sys" where
  "unhandled r f e s = s\<lparr>trace := trace s @ [Entry r f (Unhandled e)]\<rparr>"

definition progress :: "string \<Rightarrow> string \<Rightarrow> string \<Rightarrow> message" where
  "progress st status m = \<lparr>mtype = ''progress'', mdata = ProgressData st status m\<rparr>"

definition error_message :: "string \<Rightarrow> message" where
  "error_message e = \<lparr>mtype = ''error'', mdata = Text e\<rparr>"

definition numberOfChannels :: "audio_buffer \<Rightarrow> number" where
  "numberOfChannels b = of_nat (Suc (length (channels_rest b)))"

text \<open>\<^verbatim>\<open>audioBuffer.getChannelData(0)\<close>: channel 0 always exists.\<close>

definition getChannelData_0 :: "audio_buffer \<Rightarrow> samples" where
  "getChannelData_0 b = channel0 b"

subsection \<open>loadTransformers, lines 9-17\<close>

text \<open>Up to the \<^verbatim>\<open>await import(...)\<close> of line 12.\<close>

definition loadTransformers_begin :: "nat \<Rightarrow> sys \<Rightarrow> sys" where
  "loadTransformers_begin r s = external (Some r) LoadTransformers Import s"

text \<open>From the settlement of the import: lines 13-16 (\<open>Inl\<close> is the throw).\<close>

definition loadTransformers_end :: "nat \<Rightarrow> unit settled \<Rightarrow> sys \<Rightarrow> sys \<times> (string + unit)" where
  "loadTransformers_end r out s =
     (case out of
        Fulfilled m \<Rightarrow> (s, Inr m)
      | RejectedWith e \<Rightarrow>
          (raise (Some r) LoadTransformers (msg_import_failed @ e) s, Inl (msg_import_failed @ e)))"

subsection \<open>initModel, lines 20-60\<close>

text \<open>The catch clause, lines 56-59.\<close>

definition initModel_catch :: "nat \<Rightarrow> string \<Rightarrow> sys \<Rightarrow> sys \<times> handle option res" where
  "initModel_catch r e s =
     (if e = ''Cancelled'' then (s, Ret None) else (raise (Some r) InitModel e s, Throw e))"

text \<open>Lines 21 and 24, up to the import.\<close>

definition initModel_begin :: "nat \<Rightarrow> sys \<Rightarrow> sys \<times> handle option res" where
  "initModel_begin r s =
     (let s1 = postMessage (Some r) InitModel (progress ''model'' ''active'' msg_cdn) s
      in (loadTransformers_begin r s1, Wait AtImport))"

text \<open>Lines 24-26: the import has settled; the pipeline is requested.\<close>

definition initModel_after_import :: "nat \<Rightarrow> unit settled \<Rightarrow> sys \<Rightarrow> sys \<times> handle option res" where
  "initModel_after_import r out s =
     (case loadTransformers_end r out s of
        (s1, Inl e) \<Rightarrow> initModel_catch r e s1
      | (s1, Inr m) \<Rightarrow> (external (Some r) InitModel PipelineCall s1, Wait AtPipeline))"

text \<open>
  The progress callback, lines 31-46. The library calls it while the pipeline
  is being built; its throw goes to the library.
\<close>

definition progress_callback :: "plat \<Rightarrow> nat \<Rightarrow> progress_info \<Rightarrow> sys \<Rightarrow> sys" where
  "progress_callback P r d s =
     (if cancelled s then raise (Some r) ProgressCallback ''Cancelled'' s
      else if status_p d = ''downloading'' then
        (let pct = toFixed1 P (times P (over P (loaded_p d) (total_p d)) 100);
             size = toFixed1 P (over P (over P (total_p d) 1024) 1024)
         in postMessage (Some r) ProgressCallback
              (progress ''model'' ''active'' (msg_loaded @ pct @ msg_pct_of @ size @ msg_mb)) s)
      else s)"

text \<open>Line 26 and lines 50-55: the pipeline has settled.\<close>

definition initModel_after_pipeline :: "nat \<Rightarrow> handle settled \<Rightarrow> sys \<Rightarrow> sys \<times> handle option res" where
  "initModel_after_pipeline r out s =
     (case out of
        RejectedWith e \<Rightarrow> initModel_catch r e s
      | Fulfilled h \<Rightarrow>
          (let s1 = s\<lparr>transcriber := Some h\<rparr>;
               s2 = postMessage (Some r) InitModel
                      (progress ''model'' ''completed'' msg_model_ready) s1
           in (s2, Ret (transcriber s2))))"

subsection \<open>decodeAudio, lines 63-86\<close>

text \<open>The catch clause, lines 83-85.\<close>

definition decodeAudio_catch :: "nat \<Rightarrow> string \<Rightarrow> sys \<Rightarrow> sys \<times> audio_buffer res" where
  "decodeAudio_catch r e s =
     (raise (Some r) DecodeAudio (msg_decode_failed @ e) s, Throw (msg_decode_failed @ e))"

text \<open>Lines 64-71, up to the await of \<^verbatim>\<open>decodeAudioData\<close>.\<close>

definition decodeAudio_begin :: "plat \<Rightarrow> nat \<Rightarrow> array_buffer \<Rightarrow> sys \<Rightarrow> sys \<times> audio_buffer res" where
  "decodeAudio_begin P r ab s =
     (let s1 = postMessage (Some r) DecodeAudio (progress ''decode'' ''active'' msg_decoding) s
      in case audioContext s1 of
           Some c \<Rightarrow> (external (Some r) DecodeAudio (DecodeAudioData c ab) s1, Wait AtDecode)
         | None \<Rightarrow>
             (let s2 = external (Some r) DecodeAudio NewContext s1
              in case newContext P of
                   Inl e \<Rightarrow> decodeAudio_catch r e s2
                 | Inr c \<Rightarrow>
                     (external (Some r) DecodeAudio (DecodeAudioData c ab)
                        (s2\<lparr>audioContext := Some c\<rparr>), Wait AtDecode)))"

text \<open>Lines 71-85: the decoding has settled.\<close>

definition decodeAudio_end :: "plat \<Rightarrow> nat \<Rightarrow> audio_buffer settled \<Rightarrow> sys \<Rightarrow> sys \<times> audio_buffer res" where
  "decodeAudio_end P r out s =
     (case out of
        RejectedWith e \<Rightarrow> decodeAudio_catch r e s
      | Fulfilled b \<Rightarrow>
          (postMessage (Some r) DecodeAudio
             (progress ''decode'' ''completed''
                (toStr P (numberOfChannels b) @ msg_channels @ toStr P (sampleRate b) @ msg_hz
                   @ toFixed1 P (duration b) @ msg_sec)) s,
           Ret b))"

subsection \<open>transcribeAudio, lines 89-115\<close>

text \<open>The catch clause, lines 111-114.\<close>

definition transcribeAudio_catch :: "nat \<Rightarrow> string \<Rightarrow> sys \<Rightarrow> sys \<times> string option res" where
  "transcribeAudio_catch r e s =
     (if e = ''Cancelled'' then (s, Ret None)
      else (raise (Some r) TranscribeAudio (msg_transcribe_failed @ e) s,
            Throw (msg_transcribe_failed @ e)))"

text \<open>
  Lines 90-103, up to the await of the pipeline call. Calling the variable
  while it is \<^verbatim>\<open>null\<close> is a TypeError inside the try block.
\<close>

definition transcribeAudio_begin :: "plat \<Rightarrow> nat \<Rightarrow> audio_buffer \<Rightarrow> sys \<Rightarrow> sys \<times> string option res" where
  "transcribeAudio_begin P r b s =
     (let s1 = postMessage (Some r) TranscribeAudio
                 (progress ''transcribe'' ''active'' msg_recognising) s;
          audioData = getChannelData_0 b
      in case transcriber s1 of
           None \<Rightarrow> transcribeAudio_catch r (typeError P ''transcriber'') s1
         | Some h \<Rightarrow>
             (external (Some r) TranscribeAudio
                (TranscriberCall h audioData
                   \<lparr>chunk_length_s = 30, stride_length_s = 5, language = ''ru'',
                    task = ''transcribe'', sampling_rate = sampleRate b\<rparr>) s1,
              Wait AtTranscribe))"

text \<open>Lines 97-114: the pipeline call has settled.\<close>

definition transcribeAudio_end :: "nat \<Rightarrow> tr_result settled \<Rightarrow> sys \<Rightarrow> sys \<times> string option res" where
  "transcribeAudio_end r out s =
     (case out of
        RejectedWith e \<Rightarrow> transcribeAudio_catch r e s
      | Fulfilled result \<Rightarrow>
          (postMessage (Some r) TranscribeAudio
             (progress ''transcribe'' ''completed'' msg_recognised) s,
           Ret (Some (text_r result))))"

subsection \<open>processFile, lines 118-154\<close>

text \<open>The catch clause, lines 151-153.\<close>

definition processFile_catch :: "nat \<Rightarrow> string \<Rightarrow> sys \<Rightarrow> sys \<times> run" where
  "processFile_catch r e s = (postMessage (Some r) ProcessFile (error_message e) s, Return)"

text \<open>\<^verbatim>\<open>!text\<close>: \<^verbatim>\<open>null\<close> and the empty string are falsy.\<close>

definition falsy :: "string option \<Rightarrow> bool" where
  "falsy t = (case t of None \<Rightarrow> True | Some v \<Rightarrow> v = [])"

text \<open>Lines 131-153, from the return of transcribeAudio.\<close>

definition processFile_after_transcribeAudio ::
  "plat \<Rightarrow> nat \<Rightarrow> caller \<Rightarrow> file_data option \<Rightarrow> audio_buffer \<Rightarrow> string option res \<Rightarrow> sys \<Rightarrow> sys \<times> run" where
  "processFile_after_transcribeAudio P r c fileData audioBuffer res s =
     (case res of
        Wait p \<Rightarrow> (s, Suspend (InTranscribe c fileData audioBuffer))
      | Throw e \<Rightarrow> processFile_catch r e s
      | Ret t \<Rightarrow>
          if cancelled s \<or> falsy t then (s, Return)
          else (case fileData of
                  None \<Rightarrow> processFile_catch r (typeError P ''fileData'') s
                | Some f \<Rightarrow>
                    (postMessage (Some r) ProcessFile
                       \<lparr>mtype = ''result'',
                        mdata = ResultData (case t of Some v \<Rightarrow> v | None \<Rightarrow> [])
                          \<lparr>a_duration = duration audioBuffer,
                           a_sampleRate = sampleRate audioBuffer,
                           a_numberOfChannels = numberOfChannels audioBuffer\<rparr>
                          \<lparr>f_name = name_f f, f_size = size_f f\<rparr>\<rparr> s,
                     Return)))"

text \<open>Lines 127-131, from the return of decodeAudio.\<close>

definition processFile_after_decodeAudio ::
  "plat \<Rightarrow> nat \<Rightarrow> caller \<Rightarrow> file_data option \<Rightarrow> audio_buffer res \<Rightarrow> sys \<Rightarrow> sys \<times> run" where
  "processFile_after_decodeAudio P r c fileData res s =
     (case res of
        Wait p \<Rightarrow> (s, Suspend (InDecode c fileData))
      | Throw e \<Rightarrow> processFile_catch r e s
      | Ret audioBuffer \<Rightarrow>
          if cancelled s then (s, Return)
          else (let (s1, res1) = transcribeAudio_begin P r audioBuffer s
                in processFile_after_transcribeAudio P r c fileData audioBuffer res1 s1))"

text \<open>
  Lines 123-127, from the return of initModel. The argument
  \<^verbatim>\<open>fileData.arrayBuffer\<close> is evaluated before decodeAudio is entered.
\<close>

definition processFile_after_initModel ::
  "plat \<Rightarrow> nat \<Rightarrow> caller \<Rightarrow> file_data option \<Rightarrow> handle option res \<Rightarrow> sys \<Rightarrow> sys \<times> run" where
  "processFile_after_initModel P r c fileData res s =
     (case res of
        Wait p \<Rightarrow>
          (s, Suspend (case p of AtImport \<Rightarrow> InImport c fileData | _ \<Rightarrow> InPipeline c fileData))
      | Throw e \<Rightarrow> processFile_catch r e s
      | Ret model \<Rightarrow>
          if cancelled s \<or> model = None then (s, Return)
          else (case fileData of
                  None \<Rightarrow> processFile_catch r (typeError P ''fileData'') s
                | Some f \<Rightarrow>
                    (let (s1, res1) = decodeAudio_begin P r (arrayBuffer f) s
                     in processFile_after_decodeAudio P r c fileData res1 s1)))"

text \<open>Lines 119-123: the entry of processFile.\<close>

definition processFile :: "plat \<Rightarrow> nat \<Rightarrow> caller \<Rightarrow> file_data option \<Rightarrow> sys \<Rightarrow> sys \<times> run" where
  "processFile P r c fileData s =
     (let s0 = s\<lparr>cancelled := False\<rparr>;
          (s1, res) = initModel_begin r s0
      in processFile_after_initModel P r c fileData res s1)"

subsection \<open>processUrl, lines 157-180\<close>

definition processUrl_catch :: "nat \<Rightarrow> string \<Rightarrow> sys \<Rightarrow> sys \<times> run" where
  "processUrl_catch r e s = (postMessage (Some r) ProcessUrl (error_message e) s, Return)"

text \<open>Lines 159-163, up to the await of the fetch.\<close>

definition processUrl :: "nat \<Rightarrow> string option \<Rightarrow> sys \<Rightarrow> sys \<times> run" where
  "processUrl r u s =
     (let s0 = s\<lparr>cancelled := False\<rparr>;
          s1 = postMessage (Some r) ProcessUrl (progress ''decode'' ''active'' msg_fetching) s0
      in (external (Some r) ProcessUrl (Fetch u) s1, Suspend (InFetch u)))"

text \<open>Lines 163-168: the fetch has settled.\<close>

definition processUrl_after_fetch :: "plat \<Rightarrow> nat \<Rightarrow> string option \<Rightarrow> response settled \<Rightarrow> sys \<Rightarrow> sys \<times> run" where
  "processUrl_after_fetch P r u out s =
     (case out of
        RejectedWith e \<Rightarrow> processUrl_catch r e s
      | Fulfilled resp \<Rightarrow>
          if \<not> ok resp then
            (let e = msg_fetch_failed @ toStr P (status_r resp)
             in processUrl_catch r e (raise (Some r) ProcessUrl e s))
          else (external (Some r) ProcessUrl ArrayBufferOf s, Suspend (InBody u)))"

text \<open>\<^verbatim>\<open>url.split('/').pop() || 'audio'\<close>, line 172.\<close>

definition file_name_of :: "string \<Rightarrow> string" where
  "file_name_of u =
     (let n = rev (takeWhile (\<lambda>c. c \<noteq> CHR ''/'') (rev u))
      in if n = [] then ''audio'' else n)"

text \<open>
  Lines 171-179, from the return of processFile: nothing follows in the try
  block, and the catch clause takes what processFile throws.
\<close>

definition processUrl_after_processFile :: "nat \<Rightarrow> sys \<times> run \<Rightarrow> sys \<times> run" where
  "processUrl_after_processFile r sr =
     (case sr of
        (s, Escape e) \<Rightarrow> processUrl_catch r e s
      | (s, Suspend fr) \<Rightarrow> (s, Suspend fr)
      | (s, Return) \<Rightarrow> (s, Return))"

text \<open>Lines 168-175: the body has settled.\<close>

definition processUrl_after_body :: "plat \<Rightarrow> nat \<Rightarrow> string option \<Rightarrow> array_buffer settled \<Rightarrow> sys \<Rightarrow> sys \<times> run" where
  "processUrl_after_body P r u out s =
     (case out of
        RejectedWith e \<Rightarrow> processUrl_catch r e s
      | Fulfilled ab \<Rightarrow>
          if cancelled s then (s, Return)
          else (case u of
                  None \<Rightarrow> processUrl_catch r (typeError P ''url'') s
                | Some v \<Rightarrow>
                    processUrl_after_processFile r
                      (processFile P r FromUrl
                         (Some \<lparr>name_f = file_name_of v, size_f = of_nat (length ab),
                                arrayBuffer = ab\<rparr>) s)))"

subsection \<open>The event loop\<close>

text \<open>A processFile called from processUrl returns into line 171.\<close>

definition return_to :: "caller \<Rightarrow> nat \<Rightarrow> sys \<times> run \<Rightarrow> sys \<times> run" where
  "return_to c r sr = (case c of FromMessage \<Rightarrow> sr | FromUrl \<Rightarrow> processUrl_after_processFile r sr)"

text \<open>
  The end of a synchronous segment of run \<open>r\<close>: the run is suspended again, or
  it is over. An exception that leaves the handler of a message is an unhandled
  rejection.
\<close>

definition settle_task :: "nat \<Rightarrow> sys \<times> run \<Rightarrow> sys" where
  "settle_task r sr =
     (case sr of
        (s, Suspend fr) \<Rightarrow> s\<lparr>tasks := (tasks s)(r := Some fr)\<rparr>
      | (s, Return) \<Rightarrow> s\<lparr>tasks := (tasks s)(r := None)\<rparr>
      | (s, Escape e) \<Rightarrow> (unhandled (Some r) OnMessage e s)\<lparr>tasks := (tasks s)(r := None)\<rparr>)"

text \<open>\<^verbatim>\<open>self.onmessage\<close>, lines 183-201; a request starts run \<open>next_id\<close>.\<close>

definition onmessage :: "plat \<Rightarrow> event_data \<Rightarrow> sys \<Rightarrow> sys" where
  "onmessage P d s =
     (if type_e d = ''transcribe'' then
        (let r = next_id s in settle_task r (processFile P r FromMessage (file_e d) (s\<lparr>next_id := Suc r\<rparr>)))
      else if type_e d = ''transcribeUrl'' then
        (let r = next_id s in settle_task r (processUrl r (url_e d) (s\<lparr>next_id := Suc r\<rparr>)))
      else if type_e d = ''cancel'' then
        postMessage None OnMessage \<lparr>mtype = ''log'', mdata = Text msg_cancelled_log\<rparr>
          (s\<lparr>cancelled := True\<rparr>)
      else if type_e d = ''ping'' then
        postMessage None OnMessage \<lparr>mtype = ''pong'', mdata = NoData\<rparr> s
      else s)"

text \<open>
  \<^verbatim>\<open>self.onerror\<close>, lines 204-207. The platform calls the handler with the
  message of the error event, a string, as its first argument; the handler
  reads the property \<^verbatim>\<open>message\<close> of that string, which is
  \<^verbatim>\<open>undefined\<close>, and posts it as the data.
\<close>

definition onerror :: "string \<Rightarrow> sys \<Rightarrow> sys" where
  "onerror error s = postMessage None OnError \<lparr>mtype = ''error'', mdata = Undefined\<rparr> s"

text \<open>
  What the event loop can deliver: a message, an error event, a call of the
  progress callback by the pipeline that run \<open>r\<close> is waiting for, and the
  settlement of the promise that run \<open>r\<close> is waiting for.
\<close>

datatype input =
    Message event_data
  | ErrorEvent string
  | Progress nat progress_info
  | ImportSettled nat "unit settled"
  | PipelineSettled nat "handle settled"
  | DecodeSettled nat "audio_buffer settled"
  | TranscriberSettled nat "tr_result settled"
  | FetchSettled nat "response settled"
  | BodySettled nat "array_buffer settled"

text \<open>The run an input is for.\<close>

definition target :: "input \<Rightarrow> nat option" where
  "target i =
     (case i of
        Message d \<Rightarrow> None
      | ErrorEvent e \<Rightarrow> None
      | Progress r d \<Rightarrow> Some r
      | ImportSettled r out \<Rightarrow> Some r
      | PipelineSettled r out \<Rightarrow> Some r
      | DecodeSettled r out \<Rightarrow> Some r
      | TranscriberSettled r out \<Rightarrow> Some r
      | FetchSettled r out \<Rightarrow> Some r
      | BodySettled r out \<Rightarrow> Some r)"

text \<open>
  Run \<open>r\<close>, suspended in a frame, is resumed by the settlement of the promise
  it awaits there; while it awaits the pipeline, the library may call the
  progress callback. A settlement or a callback for a run that is not waiting
  for it does not exist in JavaScript; the model leaves the state as it is.
\<close>

definition resume :: "plat \<Rightarrow> nat \<Rightarrow> frame \<Rightarrow> input \<Rightarrow> sys \<Rightarrow> sys" where
  "resume P r fr i s =
     (case fr of
        InImport c fd \<Rightarrow>
          (case i of
             ImportSettled r' out \<Rightarrow>
               settle_task r (return_to c r
                 (let (s1, res) = initModel_after_import r out s
                  in processFile_after_initModel P r c fd res s1))
           | _ \<Rightarrow> s)
      | InPipeline c fd \<Rightarrow>
          (case i of
             Progress r' d \<Rightarrow> progress_callback P r d s
           | PipelineSettled r' out \<Rightarrow>
               settle_task r (return_to c r
                 (let (s1, res) = initModel_after_pipeline r out s
                  in processFile_after_initModel P r c fd res s1))
           | _ \<Rightarrow> s)
      | InDecode c fd \<Rightarrow>
          (case i of
             DecodeSettled r' out \<Rightarrow>
               settle_task r (return_to c r
                 (let (s1, res) = decodeAudio_end P r out s
                  in processFile_after_decodeAudio P r c fd res s1))
           | _ \<Rightarrow> s)
      | InTranscribe c fd b \<Rightarrow>
          (case i of
             TranscriberSettled r' out \<Rightarrow>
               settle_task r (return_to c r
                 (let (s1, res) = transcribeAudio_end r out s
                  in processFile_after_transcribeAudio P r c fd b res s1))
           | _ \<Rightarrow> s)
      | InFetch u \<Rightarrow>
          (case i of
             FetchSettled r' out \<Rightarrow> settle_task r (processUrl_after_fetch P r u out s)
           | _ \<Rightarrow> s)
      | InBody u \<Rightarrow>
          (case i of
             BodySettled r' out \<Rightarrow> settle_task r (processUrl_after_body P r u out s)
           | _ \<Rightarrow> s))"

text \<open>One turn of the event loop.\<close>

definition deliver :: "plat \<Rightarrow> input \<Rightarrow> sys \<Rightarrow> sys" where
  "deliver P i s =
     (case i of
        Message d \<Rightarrow> onmessage P d s
      | ErrorEvent e \<Rightarrow> onerror e s
      | _ \<Rightarrow>
          (case target i of
             None \<Rightarrow> s
           | Some r \<Rightarrow> (case tasks s r of None \<Rightarrow> s | Some fr \<Rightarrow> resume P r fr i s)))"

definition run_loop :: "plat \<Rightarrow> input list \<Rightarrow> sys \<Rightarrow> sys" where
  "run_loop P ins s = foldl (\<lambda>s i. deliver P i s) s ins"


section \<open>Observations\<close>

subsection \<open>On a turn of the event loop\<close>

text \<open>What one turn adds to the trace.\<close>

definition emitted :: "plat \<Rightarrow> input \<Rightarrow> sys \<Rightarrow> entry list" where
  "emitted P i s = drop (length (trace s)) (trace (deliver P i s))"

text \<open>What the resumption of run \<open>r\<close> adds to the trace.\<close>

definition added :: "plat \<Rightarrow> nat \<Rightarrow> frame \<Rightarrow> input \<Rightarrow> sys \<Rightarrow> entry list" where
  "added P r fr i s = drop (length (trace s)) (trace (resume P r fr i s))"

text \<open>The entries of run \<open>r\<close>.\<close>

definition run_trace :: "nat \<Rightarrow> entry list \<Rightarrow> entry list" where
  "run_trace r tr = filter (\<lambda>e. who e = Some r) tr"

definition posts :: "string \<Rightarrow> entry \<Rightarrow> bool" where
  "posts ty e = (case act e of Post m \<Rightarrow> mtype m = ty | _ \<Rightarrow> False)"

definition is_unhandled :: "entry \<Rightarrow> bool" where
  "is_unhandled e = (case act e of Unhandled x \<Rightarrow> True | _ \<Rightarrow> False)"

subsection \<open>Progress messages\<close>

definition well_formed_progress :: "payload \<Rightarrow> bool" where
  "well_formed_progress p =
     (case p of
        ProgressData st status m \<Rightarrow>
          st \<in> set [''model'', ''decode'', ''transcribe'']
          \<and> status \<in> set [''active'', ''completed'']
          \<and> m \<noteq> []
      | _ \<Rightarrow> False)"

text \<open>A progress message, if the entry posts one, is well formed.\<close>

definition progress_fine :: "entry \<Rightarrow> bool" where
  "progress_fine e =
     (case act e of
        Post m \<Rightarrow> mtype m = ''progress'' \<longrightarrow> well_formed_progress (mdata m)
      | _ \<Rightarrow> True)"

subsection \<open>The pipeline call\<close>

text \<open>The calls of the pipeline among some entries, in order.\<close>

definition transcriber_calls :: "entry list \<Rightarrow> call list" where
  "transcriber_calls t =
     concat (map (\<lambda>e. case act e of
                         Call (TranscriberCall h a opts) \<Rightarrow> [TranscriberCall h a opts]
                       | _ \<Rightarrow> []) t)"

text \<open>
  A run that is waiting for the pipeline has called it once, with the sampling
  rate of its audio buffer; before that it has not called it; and it posts
  its result, with the sampling rate it reports, only after one call.
\<close>

definition called_once :: "frame option \<Rightarrow> entry list \<Rightarrow> bool" where
  "called_once fo t =
     (case fo of
        Some (InTranscribe c fd b) \<Rightarrow>
          (\<exists>h a opts. transcriber_calls t = [TranscriberCall h a opts]
             \<and> sampling_rate opts = sampleRate b)
          \<and> (\<forall>e\<in>set t. \<not> posts ''result'' e)
      | Some fr \<Rightarrow> transcriber_calls t = [] \<and> (\<forall>e\<in>set t. \<not> posts ''result'' e)
      | None \<Rightarrow>
          (\<forall>e\<in>set t. posts ''result'' e \<longrightarrow>
             (\<exists>h a opts. transcriber_calls t = [TranscriberCall h a opts]
                \<and> (\<forall>m. act e = Post m \<longrightarrow> a_sampleRate (raudio (mdata m)) = sampling_rate opts))))"

subsection \<open>Cancellation\<close>

text \<open>
  The turns in which a run ends by cancellation: the pipeline or the pipeline
  call is rejected with the message \<open>Cancelled\<close> (lines 57 and 112, then the
  \<^verbatim>\<open>!model\<close> and \<^verbatim>\<open>!text\<close> of lines 124 and 132), or an awaited step
  returns while the flag is set (lines 124, 128, 132 and 169).
\<close>

definition cancel_exit :: "frame \<Rightarrow> input \<Rightarrow> sys \<Rightarrow> bool" where
  "cancel_exit fr i s =
     (case fr of
        InPipeline c fd \<Rightarrow>
          (case i of
             PipelineSettled r out \<Rightarrow>
               (case out of RejectedWith e \<Rightarrow> e = ''Cancelled'' | Fulfilled h \<Rightarrow> cancelled s)
           | _ \<Rightarrow> False)
      | InDecode c fd \<Rightarrow>
          (case i of
             DecodeSettled r out \<Rightarrow>
               (case out of RejectedWith e \<Rightarrow> False | Fulfilled b \<Rightarrow> cancelled s)
           | _ \<Rightarrow> False)
      | InTranscribe c fd b \<Rightarrow>
          (case i of
             TranscriberSettled r out \<Rightarrow>
               (case out of RejectedWith e \<Rightarrow> e = ''Cancelled'' | Fulfilled res \<Rightarrow> cancelled s)
           | _ \<Rightarrow> False)
      | InBody u \<Rightarrow>
          (case i of
             BodySettled r out \<Rightarrow>
               (case out of RejectedWith e \<Rightarrow> False | Fulfilled ab \<Rightarrow> cancelled s)
           | _ \<Rightarrow> False)
      | _ \<Rightarrow> False)"

text \<open>A run that is not over has posted neither a result nor an error.\<close>

definition quiet :: "frame option \<Rightarrow> entry list \<Rightarrow> bool" where
  "quiet fo t =
     (case fo of
        Some fr \<Rightarrow> \<forall>e\<in>set t. \<not> posts ''result'' e \<and> \<not> posts ''error'' e
      | None \<Rightarrow> True)"





subsection \<open>Errors\<close>


subsection \<open>The order of the steps\<close>

text \<open>The position of a source function in a run, and of a frame.\<close>

fun rank :: "fname \<Rightarrow> nat" where
  "rank ProcessUrl = 0"
| "rank LoadTransformers = 1"
| "rank InitModel = 1"
| "rank ProgressCallback = 1"
| "rank DecodeAudio = 2"
| "rank TranscribeAudio = 3"
| "rank ProcessFile = 4"
| "rank OnMessage = 5"
| "rank OnError = 5"

fun stage :: "frame \<Rightarrow> nat" where
  "stage (InFetch u) = 0"
| "stage (InBody u) = 0"
| "stage (InImport c fd) = 1"
| "stage (InPipeline c fd) = 1"
| "stage (InDecode c fd) = 2"
| "stage (InTranscribe c fd b) = 3"

text \<open>The entry posts the \<open>completed\<close> progress message of a step.\<close>

definition completes :: "string \<Rightarrow> entry \<Rightarrow> bool" where
  "completes st e =
     (case act e of
        Post m \<Rightarrow>
          mtype m = ''progress''
          \<and> (case mdata m of ProgressData a b n \<Rightarrow> a = st \<and> b = ''completed'' | _ \<Rightarrow> False)
      | _ \<Rightarrow> False)"

text \<open>Some entry is of function \<open>f\<close>; function \<open>f\<close> has reported the completion of step \<open>st\<close>.\<close>

definition acts :: "fname \<Rightarrow> entry list \<Rightarrow> bool" where
  "acts f t = list_ex (\<lambda>e. fn e = f) t"

definition reported :: "fname \<Rightarrow> string \<Rightarrow> entry list \<Rightarrow> bool" where
  "reported f st t = list_ex (\<lambda>e. fn e = f \<and> completes st e) t"

definition in_order :: "frame option \<Rightarrow> entry list \<Rightarrow> bool" where
  "in_order fo t =
     (sorted (map (\<lambda>e. rank (fn e)) t)
      \<and> (acts DecodeAudio t \<longrightarrow> reported InitModel ''model'' t)
      \<and> (acts TranscribeAudio t \<longrightarrow> reported DecodeAudio ''decode'' t)
      \<and> (case fo of
           None \<Rightarrow> True
         | Some fr \<Rightarrow>
             list_all (\<lambda>e. rank (fn e) \<le> stage fr) t
             \<and> (2 \<le> stage fr \<longrightarrow> reported InitModel ''model'' t)
             \<and> (3 \<le> stage fr \<longrightarrow> reported DecodeAudio ''decode'' t)))"

section \<open>Concrete inputs\<close>

definition P0 :: plat where
  "P0 = \<lparr>toFixed1 = (\<lambda>n. ''0.0''), toStr = (\<lambda>n. ''0''), times = (\<lambda>a b. a * b),
          over = (\<lambda>a b. a / b), typeError = (\<lambda>x. x @ '' is undefined''),
          newContext = Inr 0\<rparr>"

definition file0 :: file_data where
  "file0 = \<lparr>name_f = ''a.wav'', size_f = 4, arrayBuffer = [82, 73, 70, 70]\<rparr>"

definition buffer0 :: audio_buffer where
  "buffer0 = \<lparr>channel0 = [0, 1 / 2], channels_rest = [], sampleRate = 44100, duration = 1\<rparr>"

definition result0 :: tr_result where
  "result0 = \<lparr>text_r = ''hello''\<rparr>"

definition transcribe0 :: event_data where
  "transcribe0 = \<lparr>type_e = ''transcribe'', file_e = Some file0, url_e = None\<rparr>"

definition cancel0 :: event_data where
  "cancel0 = \<lparr>type_e = ''cancel'', file_e = None, url_e = None\<rparr>"

definition ping0 :: event_data where
  "ping0 = \<lparr>type_e = ''ping'', file_e = None, url_e = None\<rparr>"

definition other0 :: event_data where
  "other0 = \<lparr>type_e = ''status'', file_e = None, url_e = None\<rparr>"


definition pong :: message where
  "pong = \<lparr>mtype = ''pong'', mdata = NoData\<rparr>"

definition cancel_log :: message where
  "cancel_log = \<lparr>mtype = ''log'', mdata = Text msg_cancelled_log\<rparr>"

definition result_message0 :: message where
  "result_message0 =
     \<lparr>mtype = ''result'',
      mdata = ResultData ''hello''
        \<lparr>a_duration = 1, a_sampleRate = 44100, a_numberOfChannels = 1\<rparr>
        \<lparr>f_name = ''a.wav'', f_size = 4\<rparr>\<rparr>"

definition url0 :: event_data where
  "url0 = \<lparr>type_e = ''transcribeUrl'', file_e = None, url_e = Some ''https://h/d/a.wav''\<rparr>"

text \<open>A download that is handed to processFile.\<close>

definition url_inputs :: "input list" where
  "url_inputs =
     [Message url0, FetchSettled 0 (Fulfilled \<lparr>ok = True, status_r = 200\<rparr>),
      BodySettled 0 (Fulfilled [82, 73, 70, 70])]"

text \<open>A run that succeeds; a run whose decoding fails.\<close>

definition success_inputs :: "input list" where
  "success_inputs =
     [Message transcribe0, ImportSettled 0 (Fulfilled ()), PipelineSettled 0 (Fulfilled 7),
      DecodeSettled 0 (Fulfilled buffer0), TranscriberSettled 0 (Fulfilled result0)]"


text \<open>
  A run that waits for the pipeline; a run that waits for the decoding, a
  \<open>cancel\<close> that arrives then, and a second request that arrives before the
  decoding returns.
\<close>

definition importing_inputs :: "input list" where
  "importing_inputs = [Message transcribe0]"


definition decoding_inputs :: "input list" where
  "decoding_inputs =
     [Message transcribe0, ImportSettled 0 (Fulfilled ()), PipelineSettled 0 (Fulfilled 7)]"

definition cancelled_inputs :: "input list" where
  "cancelled_inputs = decoding_inputs @ [Message cancel0]"



section \<open>Each turn in closed form\<close>

lemma prim_trace [simp]:
  "trace (postMessage r f m s) = trace s @ [Entry r f (Post m)]"
  "trace (external r f c s) = trace s @ [Entry r f (Call c)]"
  "trace (raise r f e s) = trace s @ [Entry r f (Raise e)]"
  "trace (unhandled r f e s) = trace s @ [Entry r f (Unhandled e)]"
  by (simp_all add: postMessage_def external_def raise_def unhandled_def)

lemma prim_frame [simp]:
  "cancelled (postMessage r f m s) = cancelled s"
  "cancelled (external r f c s) = cancelled s"
  "cancelled (raise r f e s) = cancelled s"
  "cancelled (unhandled r f e s) = cancelled s"
  "transcriber (postMessage r f m s) = transcriber s"
  "transcriber (external r f c s) = transcriber s"
  "transcriber (raise r f e s) = transcriber s"
  "transcriber (unhandled r f e s) = transcriber s"
  "audioContext (postMessage r f m s) = audioContext s"
  "audioContext (external r f c s) = audioContext s"
  "audioContext (raise r f e s) = audioContext s"
  "audioContext (unhandled r f e s) = audioContext s"
  "tasks (postMessage r f m s) = tasks s"
  "tasks (external r f c s) = tasks s"
  "tasks (raise r f e s) = tasks s"
  "tasks (unhandled r f e s) = tasks s"
  "next_id (postMessage r f m s) = next_id s"
  "next_id (external r f c s) = next_id s"
  "next_id (raise r f e s) = next_id s"
  "next_id (unhandled r f e s) = next_id s"
  by (simp_all add: postMessage_def external_def raise_def unhandled_def)

lemma import_failed_not_Cancelled: "msg_import_failed @ e \<noteq> ''Cancelled''"
  by (simp add: msg_import_failed_def)

text \<open>How a segment of processFile ends, whoever called processFile.\<close>

lemma finish_simps:
  "settle_task r (return_to c r (s, Return)) = s\<lparr>tasks := (tasks s)(r := None)\<rparr>"
  "settle_task r (return_to c r (s, Suspend fr)) = s\<lparr>tasks := (tasks s)(r := Some fr)\<rparr>"
  "settle_task r (return_to c r (processFile_catch r e s)) =
     (postMessage (Some r) ProcessFile (error_message e) s)\<lparr>tasks := (tasks s)(r := None)\<rparr>"
  by (simp_all add: settle_task_def return_to_def processUrl_after_processFile_def
      processFile_catch_def split: caller.split)

lemma settle_simps:
  "settle_task r (s, Return) = s\<lparr>tasks := (tasks s)(r := None)\<rparr>"
  "settle_task r (s, Suspend fr) = s\<lparr>tasks := (tasks s)(r := Some fr)\<rparr>"
  "settle_task r (processUrl_catch r e s) =
     (postMessage (Some r) ProcessUrl (error_message e) s)\<lparr>tasks := (tasks s)(r := None)\<rparr>"
  by (simp_all add: settle_task_def processUrl_catch_def)

lemma after_transcribeAudio_Throw:
  "settle_task r (return_to c r (processFile_after_transcribeAudio P r c fd b (Throw e) s)) =
     (postMessage (Some r) ProcessFile (error_message e) s)\<lparr>tasks := (tasks s)(r := None)\<rparr>"
  by (simp add: processFile_after_transcribeAudio_def finish_simps)

lemma after_decodeAudio_Throw:
  "settle_task r (return_to c r (processFile_after_decodeAudio P r c fd (Throw e) s)) =
     (postMessage (Some r) ProcessFile (error_message e) s)\<lparr>tasks := (tasks s)(r := None)\<rparr>"
  by (simp add: processFile_after_decodeAudio_def finish_simps)

lemma after_initModel_Throw:
  "settle_task r (return_to c r (processFile_after_initModel P r c fd (Throw e) s)) =
     (postMessage (Some r) ProcessFile (error_message e) s)\<lparr>tasks := (tasks s)(r := None)\<rparr>"
  by (simp add: processFile_after_initModel_def finish_simps)

lemma after_initModel_Wait:
  "settle_task r (return_to c r (processFile_after_initModel P r c fd (Wait p) s)) =
     s\<lparr>tasks := (tasks s)(r := Some (case p of AtImport \<Rightarrow> InImport c fd | _ \<Rightarrow> InPipeline c fd))\<rparr>"
  by (simp add: processFile_after_initModel_def finish_simps)

lemma after_transcribeAudio_Ret:
  "settle_task r (return_to c r (processFile_after_transcribeAudio P r c fd b (Ret t) s)) =
    (if cancelled s \<or> falsy t then s\<lparr>tasks := (tasks s)(r := None)\<rparr>
     else case fd of
       None \<Rightarrow>
         (postMessage (Some r) ProcessFile (error_message (typeError P ''fileData'')) s)
           \<lparr>tasks := (tasks s)(r := None)\<rparr>
     | Some f \<Rightarrow>
         (postMessage (Some r) ProcessFile
            \<lparr>mtype = ''result'',
             mdata = ResultData (case t of Some v \<Rightarrow> v | None \<Rightarrow> [])
               \<lparr>a_duration = duration b, a_sampleRate = sampleRate b,
                a_numberOfChannels = numberOfChannels b\<rparr>
               \<lparr>f_name = name_f f, f_size = size_f f\<rparr>\<rparr> s)
           \<lparr>tasks := (tasks s)(r := None)\<rparr>)"
  by (simp add: processFile_after_transcribeAudio_def finish_simps split: option.split)

lemma after_decodeAudio_Ret:
  "settle_task r (return_to c r (processFile_after_decodeAudio P r c fd (Ret b) s)) =
    (if cancelled s then s\<lparr>tasks := (tasks s)(r := None)\<rparr>
     else
       (let s1 = postMessage (Some r) TranscribeAudio
                   (progress ''transcribe'' ''active'' msg_recognising) s
        in case transcriber s of
             None \<Rightarrow>
               if typeError P ''transcriber'' = ''Cancelled''
               then s1\<lparr>tasks := (tasks s)(r := None)\<rparr>
               else (postMessage (Some r) ProcessFile
                       (error_message (msg_transcribe_failed @ typeError P ''transcriber''))
                       (raise (Some r) TranscribeAudio
                          (msg_transcribe_failed @ typeError P ''transcriber'') s1))
                      \<lparr>tasks := (tasks s)(r := None)\<rparr>
           | Some h \<Rightarrow>
               (external (Some r) TranscribeAudio
                  (TranscriberCall h (channel0 b)
                     \<lparr>chunk_length_s = 30, stride_length_s = 5, language = ''ru'',
                      task = ''transcribe'', sampling_rate = sampleRate b\<rparr>) s1)
                 \<lparr>tasks := (tasks s)(r := Some (InTranscribe c fd b))\<rparr>))"
  by (simp add: processFile_after_decodeAudio_def transcribeAudio_begin_def
      transcribeAudio_catch_def processFile_after_transcribeAudio_def getChannelData_0_def
      falsy_def finish_simps Let_def split: option.split)

lemma after_initModel_Ret:
  "settle_task r (return_to c r (processFile_after_initModel P r c fd (Ret model) s)) =
    (if cancelled s \<or> model = None then s\<lparr>tasks := (tasks s)(r := None)\<rparr>
     else case fd of
       None \<Rightarrow>
         (postMessage (Some r) ProcessFile (error_message (typeError P ''fileData'')) s)
           \<lparr>tasks := (tasks s)(r := None)\<rparr>
     | Some f \<Rightarrow>
        (let s1 = postMessage (Some r) DecodeAudio (progress ''decode'' ''active'' msg_decoding) s
         in case audioContext s of
           Some cx \<Rightarrow>
             (external (Some r) DecodeAudio (DecodeAudioData cx (arrayBuffer f)) s1)
               \<lparr>tasks := (tasks s)(r := Some (InDecode c fd))\<rparr>
         | None \<Rightarrow>
            (case newContext P of
               Inl e \<Rightarrow>
                 (postMessage (Some r) ProcessFile (error_message (msg_decode_failed @ e))
                    (raise (Some r) DecodeAudio (msg_decode_failed @ e)
                       (external (Some r) DecodeAudio NewContext s1)))
                   \<lparr>tasks := (tasks s)(r := None)\<rparr>
             | Inr cx \<Rightarrow>
                 (external (Some r) DecodeAudio (DecodeAudioData cx (arrayBuffer f))
                    ((external (Some r) DecodeAudio NewContext s1)\<lparr>audioContext := Some cx\<rparr>))
                   \<lparr>tasks := (tasks s)(r := Some (InDecode c fd))\<rparr>)))"
  by (simp add: processFile_after_initModel_def decodeAudio_begin_def decodeAudio_catch_def
      processFile_after_decodeAudio_def finish_simps Let_def split: option.split sum.split)

lemma processFile_begin:
  "settle_task r (return_to c r (processFile P r c fd s)) =
     (external (Some r) LoadTransformers Import
        (postMessage (Some r) InitModel (progress ''model'' ''active'' msg_cdn)
           (s\<lparr>cancelled := False\<rparr>)))
       \<lparr>tasks := (tasks s)(r := Some (InImport c fd))\<rparr>"
  by (simp add: processFile_def initModel_begin_def loadTransformers_begin_def Let_def
      after_initModel_Wait)

lemma resume_import:
  "resume P r (InImport c fd) (ImportSettled r' out) s =
     (case out of
        RejectedWith e \<Rightarrow>
          (postMessage (Some r) ProcessFile (error_message (msg_import_failed @ e))
             (raise (Some r) InitModel (msg_import_failed @ e)
                (raise (Some r) LoadTransformers (msg_import_failed @ e) s)))
            \<lparr>tasks := (tasks s)(r := None)\<rparr>
      | Fulfilled u \<Rightarrow>
          (external (Some r) InitModel PipelineCall s)
            \<lparr>tasks := (tasks s)(r := Some (InPipeline c fd))\<rparr>)"
  by (simp add: resume_def initModel_after_import_def loadTransformers_end_def initModel_catch_def
      import_failed_not_Cancelled after_initModel_Throw after_initModel_Wait
      split: settled.split)

lemma resume_progress:
  "resume P r (InPipeline c fd) (Progress r' d) s =
     (if cancelled s then raise (Some r) ProgressCallback ''Cancelled'' s
      else if status_p d = ''downloading'' then
        postMessage (Some r) ProgressCallback
          (progress ''model'' ''active''
             (msg_loaded @ toFixed1 P (times P (over P (loaded_p d) (total_p d)) 100)
                @ msg_pct_of @ toFixed1 P (over P (over P (total_p d) 1024) 1024) @ msg_mb)) s
      else s)"
  by (simp add: resume_def progress_callback_def Let_def)

lemma resume_pipeline:
  "resume P r (InPipeline c fd) (PipelineSettled r' out) s =
     (case out of
        RejectedWith e \<Rightarrow>
          if e = ''Cancelled'' then s\<lparr>tasks := (tasks s)(r := None)\<rparr>
          else (postMessage (Some r) ProcessFile (error_message e)
                  (raise (Some r) InitModel e s))\<lparr>tasks := (tasks s)(r := None)\<rparr>
      | Fulfilled h \<Rightarrow>
          settle_task r (return_to c r (processFile_after_initModel P r c fd (Ret (Some h))
            (postMessage (Some r) InitModel (progress ''model'' ''completed'' msg_model_ready)
               (s\<lparr>transcriber := Some h\<rparr>)))))"
  by (simp add: resume_def initModel_after_pipeline_def initModel_catch_def Let_def
      after_initModel_Throw after_initModel_Ret split: settled.split)

lemma resume_decode:
  "resume P r (InDecode c fd) (DecodeSettled r' out) s =
     (case out of
        RejectedWith e \<Rightarrow>
          (postMessage (Some r) ProcessFile (error_message (msg_decode_failed @ e))
             (raise (Some r) DecodeAudio (msg_decode_failed @ e) s))
            \<lparr>tasks := (tasks s)(r := None)\<rparr>
      | Fulfilled b \<Rightarrow>
          settle_task r (return_to c r (processFile_after_decodeAudio P r c fd (Ret b)
            (postMessage (Some r) DecodeAudio
               (progress ''decode'' ''completed''
                  (toStr P (numberOfChannels b) @ msg_channels @ toStr P (sampleRate b)
                     @ msg_hz @ toFixed1 P (duration b) @ msg_sec)) s))))"
  by (simp add: resume_def decodeAudio_end_def decodeAudio_catch_def after_decodeAudio_Throw
      split: settled.split)

lemma resume_transcribe:
  "resume P r (InTranscribe c fd b) (TranscriberSettled r' out) s =
     (case out of
        RejectedWith e \<Rightarrow>
          if e = ''Cancelled'' then s\<lparr>tasks := (tasks s)(r := None)\<rparr>
          else (postMessage (Some r) ProcessFile (error_message (msg_transcribe_failed @ e))
                  (raise (Some r) TranscribeAudio (msg_transcribe_failed @ e) s))
                 \<lparr>tasks := (tasks s)(r := None)\<rparr>
      | Fulfilled result \<Rightarrow>
          settle_task r (return_to c r
            (processFile_after_transcribeAudio P r c fd b (Ret (Some (text_r result)))
               (postMessage (Some r) TranscribeAudio
                  (progress ''transcribe'' ''completed'' msg_recognised) s))))"
  by (simp add: resume_def transcribeAudio_end_def transcribeAudio_catch_def after_transcribeAudio_Throw
      after_transcribeAudio_Ret falsy_def split: settled.split)

lemma resume_fetch:
  "resume P r (InFetch u) (FetchSettled r' out) s =
     (case out of
        RejectedWith e \<Rightarrow>
          (postMessage (Some r) ProcessUrl (error_message e) s)\<lparr>tasks := (tasks s)(r := None)\<rparr>
      | Fulfilled resp \<Rightarrow>
          if \<not> ok resp then
            (postMessage (Some r) ProcessUrl
               (error_message (msg_fetch_failed @ toStr P (status_r resp)))
               (raise (Some r) ProcessUrl (msg_fetch_failed @ toStr P (status_r resp)) s))
              \<lparr>tasks := (tasks s)(r := None)\<rparr>
          else (external (Some r) ProcessUrl ArrayBufferOf s)
                 \<lparr>tasks := (tasks s)(r := Some (InBody u))\<rparr>)"
  by (simp add: resume_def processUrl_after_fetch_def settle_simps Let_def split: settled.split)

lemma resume_body:
  "resume P r (InBody u) (BodySettled r' out) s =
     (case out of
        RejectedWith e \<Rightarrow>
          (postMessage (Some r) ProcessUrl (error_message e) s)\<lparr>tasks := (tasks s)(r := None)\<rparr>
      | Fulfilled ab \<Rightarrow>
          if cancelled s then s\<lparr>tasks := (tasks s)(r := None)\<rparr>
          else (case u of
                  None \<Rightarrow>
                    (postMessage (Some r) ProcessUrl (error_message (typeError P ''url'')) s)
                      \<lparr>tasks := (tasks s)(r := None)\<rparr>
                | Some v \<Rightarrow>
                    settle_task r (return_to FromUrl r (processFile P r FromUrl
                      (Some \<lparr>name_f = file_name_of v, size_f = of_nat (length ab),
                             arrayBuffer = ab\<rparr>) s))))"
  by (simp add: resume_def processUrl_after_body_def settle_simps return_to_def
      split: settled.split option.split)

lemma onmessage_eq:
  "onmessage P d s =
     (if type_e d = ''transcribe'' then
        (external (Some (next_id s)) LoadTransformers Import
          (postMessage (Some (next_id s)) InitModel (progress ''model'' ''active'' msg_cdn)
             (s\<lparr>cancelled := False, next_id := Suc (next_id s)\<rparr>)))
         \<lparr>tasks := (tasks s)(next_id s := Some (InImport FromMessage (file_e d)))\<rparr>
      else if type_e d = ''transcribeUrl'' then
        (external (Some (next_id s)) ProcessUrl (Fetch (url_e d))
          (postMessage (Some (next_id s)) ProcessUrl (progress ''decode'' ''active'' msg_fetching)
             (s\<lparr>cancelled := False, next_id := Suc (next_id s)\<rparr>)))
         \<lparr>tasks := (tasks s)(next_id s := Some (InFetch (url_e d)))\<rparr>
      else if type_e d = ''cancel'' then
        postMessage None OnMessage \<lparr>mtype = ''log'', mdata = Text msg_cancelled_log\<rparr>
          (s\<lparr>cancelled := True\<rparr>)
      else if type_e d = ''ping'' then
        postMessage None OnMessage \<lparr>mtype = ''pong'', mdata = NoData\<rparr> s
      else s)"
  using processFile_begin [of "next_id s" FromMessage P "file_e d" "s\<lparr>next_id := Suc (next_id s)\<rparr>"]
  by (simp add: onmessage_def Let_def return_to_def processUrl_def settle_simps)

lemmas resume_eqs = resume_import resume_progress resume_pipeline resume_decode
  resume_transcribe resume_fetch resume_body after_initModel_Ret after_decodeAudio_Ret
  after_transcribeAudio_Ret processFile_begin


section \<open>The event loop, one run at a time\<close>

lemma resume_cases [case_names Import Progress Pipeline Decode Transcribe Fetch Body Idle]:
  obtains
    c fd r' out where "fr = InImport c fd" "i = ImportSettled r' out"
  | c fd r' d where "fr = InPipeline c fd" "i = Progress r' d"
  | c fd r' out where "fr = InPipeline c fd" "i = PipelineSettled r' out"
  | c fd r' out where "fr = InDecode c fd" "i = DecodeSettled r' out"
  | c fd b r' out where "fr = InTranscribe c fd b" "i = TranscriberSettled r' out"
  | u r' out where "fr = InFetch u" "i = FetchSettled r' out"
  | u r' out where "fr = InBody u" "i = BodySettled r' out"
  | "resume P r fr i s = s"
  by (cases fr; cases i) (simp_all add: resume_def)

lemma deliver_cases [case_names Message ErrorEvent Run Idle]:
  obtains
    d where "i = Message d" "deliver P i s = onmessage P d s"
  | e where "i = ErrorEvent e" "deliver P i s = onerror e s"
  | r fr where "target i = Some r" "tasks s r = Some fr" "deliver P i s = resume P r fr i s"
  | "deliver P i s = s"
  by (cases i; cases "tasks s (the (target i))") (simp_all add: deliver_def target_def)

lemmas turn_splits = settled.split option.split sum.split

lemma run_trace_other:
  assumes "\<And>e. e \<in> set es \<Longrightarrow> who e = None \<or> who e = Some n" and "r \<noteq> n"
  shows "run_trace r es = []"
proof -
  have "\<forall>e\<in>set es. who e \<noteq> Some r" using assms by fastforce
  then show ?thesis by (simp add: run_trace_def filter_empty_conv)
qed

lemma run_trace_own:
  assumes "\<And>e. e \<in> set es \<Longrightarrow> who e = Some r"
  shows "run_trace r es = es"
  using assms by (simp add: run_trace_def)

lemma trace_resume: "trace (resume P r fr i s) = trace s @ added P r fr i s"
  by (cases rule: resume_cases [where fr = fr and i = i and P = P and r = r and s = s])
    (simp_all add: added_def resume_eqs Let_def split: turn_splits)

lemma who_added_all: "\<forall>e\<in>set (added P r fr i s). who e = Some r"
  by (cases rule: resume_cases [where fr = fr and i = i and P = P and r = r and s = s])
    (simp_all add: added_def resume_eqs Let_def split: turn_splits)

lemma who_added: "e \<in> set (added P r fr i s) \<Longrightarrow> who e = Some r"
  using who_added_all by blast

lemma tasks_resume_other: "r' \<noteq> r \<Longrightarrow> tasks (resume P r fr i s) r' = tasks s r'"
  by (cases rule: resume_cases [where fr = fr and i = i and P = P and r = r and s = s])
    (simp_all add: resume_eqs Let_def split: turn_splits)

lemma next_id_resume: "next_id (resume P r fr i s) = next_id s"
  by (cases rule: resume_cases [where fr = fr and i = i and P = P and r = r and s = s])
    (simp_all add: resume_eqs Let_def split: turn_splits)

lemma trace_onmessage: "trace (onmessage P d s) = trace s @ emitted P (Message d) s"
  by (simp add: emitted_def deliver_def onmessage_eq)

lemma who_onmessage:
  "e \<in> set (emitted P (Message d) s) \<Longrightarrow> who e = None \<or> who e = Some (next_id s)"
  by (auto simp add: emitted_def deliver_def onmessage_eq split: if_splits)

lemma tasks_onmessage_other: "r' \<noteq> next_id s \<Longrightarrow> tasks (onmessage P d s) r' = tasks s r'"
  by (simp add: onmessage_eq)

lemma next_id_onmessage: "next_id s \<le> next_id (onmessage P d s)"
  by (simp add: onmessage_eq)

lemma next_id_onmessage_started:
  "tasks (onmessage P d s) (next_id s) \<noteq> tasks s (next_id s) \<Longrightarrow>
   next_id (onmessage P d s) = Suc (next_id s)"
  by (simp add: onmessage_eq split: if_splits)

lemma emitted_onmessage_unstarted:
  "next_id (onmessage P d s) = next_id s \<Longrightarrow>
   run_trace r (emitted P (Message d) s) = [] \<and> tasks (onmessage P d s) = tasks s"
  by (simp add: emitted_def deliver_def onmessage_eq run_trace_def split: if_splits)

lemma trace_deliver: "trace (deliver P i s) = trace s @ emitted P i s"
proof (cases rule: deliver_cases [where i = i and P = P and s = s])
  case (Message d)
  then show ?thesis using trace_onmessage by simp
next
  case (ErrorEvent e)
  then show ?thesis by (simp add: emitted_def onerror_def)
next
  case (Run r fr)
  then show ?thesis using trace_resume [of P r fr i s] by (simp add: emitted_def)
next
  case Idle
  then show ?thesis by (simp add: emitted_def)
qed

lemma emitted_Run:
  "target i = Some r \<Longrightarrow> tasks s r = Some fr \<Longrightarrow> emitted P i s = added P r fr i s"
  by (cases i) (simp_all add: emitted_def added_def deliver_def target_def)

lemma run_loop_Nil [simp]: "run_loop P [] s = s"
  by (simp add: run_loop_def)

lemma run_loop_Cons [simp]: "run_loop P (i # ins) s = run_loop P ins (deliver P i s)"
  by (simp add: run_loop_def)

lemma run_loop_append: "run_loop P (xs @ ys) s = run_loop P ys (run_loop P xs s)"
  by (simp add: run_loop_def)

lemma run_loop_snoc: "run_loop P (xs @ [i]) s = deliver P i (run_loop P xs s)"
  by (simp add: run_loop_def)

lemma run_trace_append [simp]: "run_trace r (xs @ ys) = run_trace r xs @ run_trace r ys"
  by (simp add: run_trace_def)

lemma run_trace_Nil [simp]: "run_trace r [] = []"
  by (simp add: run_trace_def)

text \<open>A run that has not been started has no frame and no entry.\<close>

lemma fresh_deliver:
  assumes "\<forall>r. next_id s \<le> r \<longrightarrow> tasks s r = None \<and> run_trace r (trace s) = []"
  shows "\<forall>r. next_id (deliver P i s) \<le> r \<longrightarrow>
           tasks (deliver P i s) r = None \<and> run_trace r (trace (deliver P i s)) = []"
proof (cases rule: deliver_cases [where i = i and P = P and s = s])
  case (Message d)
  show ?thesis
  proof (intro allI impI)
    fix r assume r: "next_id (deliver P i s) \<le> r"
    show "tasks (deliver P i s) r = None \<and> run_trace r (trace (deliver P i s)) = []"
    proof (cases "next_id (onmessage P d s) = next_id s")
      case True
      then show ?thesis
        using r assms Message emitted_onmessage_unstarted [of P d s r] trace_onmessage [of P d s]
        by simp
    next
      case False
      have lt: "next_id s < r"
        using r False Message next_id_onmessage [of s P d]
        by (simp add: onmessage_eq split: if_splits)
      have "run_trace r (emitted P (Message d) s) = []"
        using who_onmessage [of _ P d s] lt by (intro run_trace_other [of _ "next_id s"]) auto
      then show ?thesis
        using lt assms Message tasks_onmessage_other [of r s P d] trace_onmessage [of P d s]
        by simp
    qed
  qed
next
  case (ErrorEvent e)
  then show ?thesis using assms by (simp add: onerror_def run_trace_def)
next
  case (Run r0 fr)
  show ?thesis
  proof (intro allI impI)
    fix r assume r: "next_id (deliver P i s) \<le> r"
    then have le: "next_id s \<le> r" using Run by (simp add: next_id_resume)
    then have ne: "r \<noteq> r0" using assms Run by auto
    have "run_trace r (added P r0 fr i s) = []"
      using who_added [of _ P r0 fr i s] ne by (intro run_trace_other [of _ r0]) auto
    then show "tasks (deliver P i s) r = None \<and> run_trace r (trace (deliver P i s)) = []"
      using le ne assms Run tasks_resume_other [of r r0 P fr i s] trace_resume [of P r0 fr i s]
      by simp
  qed
next
  case Idle
  then show ?thesis using assms by simp
qed

lemma fresh_run_loop:
  "next_id (run_loop P ins init) \<le> r \<Longrightarrow>
   tasks (run_loop P ins init) r = None \<and> run_trace r (trace (run_loop P ins init)) = []"
proof -
  have "\<forall>r. next_id (run_loop P ins init) \<le> r \<longrightarrow>
          tasks (run_loop P ins init) r = None \<and> run_trace r (trace (run_loop P ins init)) = []"
  proof (induction ins rule: rev_induct)
    case Nil
    then show ?case by (simp add: init_def)
  next
    case (snoc i ins)
    then show ?case using fresh_deliver [of "run_loop P ins init" P i] by (simp add: run_loop_snoc)
  qed
  then show "next_id (run_loop P ins init) \<le> r \<Longrightarrow>
   tasks (run_loop P ins init) r = None \<and> run_trace r (trace (run_loop P ins init)) = []"
    by simp
qed

text \<open>
  A property of a run, of its frame and of its own entries, that holds when
  the run is started and is kept by each of its resumptions holds throughout.
\<close>

lemma run_invariant:
  assumes init: "J None []"
    and start: "\<And>s d. tasks s (next_id s) = None \<Longrightarrow>
                 J (tasks (onmessage P d s) (next_id s))
                   (run_trace (next_id s) (emitted P (Message d) s))"
    and step: "\<And>s fr i t. tasks s r = Some fr \<Longrightarrow> J (Some fr) t \<Longrightarrow>
                 J (tasks (resume P r fr i s) r) (t @ added P r fr i s)"
  shows "J (tasks (run_loop P ins init) r) (run_trace r (trace (run_loop P ins init)))"
proof (induction ins rule: rev_induct)
  case Nil
  then show ?case using init by (simp add: init_def)
next
  case (snoc i ins)
  define s where "s = run_loop P ins init"
  have IH: "J (tasks s r) (run_trace r (trace s))" using snoc by (simp add: s_def)
  have goal: "J (tasks (deliver P i s) r) (run_trace r (trace (deliver P i s)))"
  proof (cases rule: deliver_cases [where i = i and P = P and s = s])
    case (Message d)
    show ?thesis
    proof (cases "r = next_id s")
      case True
      then have "tasks s r = None" "run_trace r (trace s) = []"
        using fresh_run_loop [of P ins r] by (simp_all add: s_def)
      then show ?thesis
        using start [of s d] True Message trace_onmessage [of P d s] by simp
    next
      case False
      have "run_trace r (emitted P (Message d) s) = []"
        using who_onmessage [of _ P d s] False by (intro run_trace_other [of _ "next_id s"]) auto
      then show ?thesis
        using IH False Message tasks_onmessage_other [of r s P d] trace_onmessage [of P d s]
        by simp
    qed
  next
    case (ErrorEvent e)
    then show ?thesis using IH by (simp add: onerror_def run_trace_def)
  next
    case (Run r0 fr)
    show ?thesis
    proof (cases "r = r0")
      case True
      have "run_trace r (added P r fr i s) = added P r fr i s"
        using who_added [of _ P r fr i s] by (intro run_trace_own) auto
      then show ?thesis
        using step [of s fr "run_trace r (trace s)" i] IH Run True trace_resume [of P r fr i s]
        by simp
    next
      case False
      have "run_trace r (added P r0 fr i s) = []"
        using who_added [of _ P r0 fr i s] False by (intro run_trace_other [of _ r0]) auto
      then show ?thesis
        using IH False Run tasks_resume_other [of r r0 P fr i s] trace_resume [of P r0 fr i s]
        by simp
    qed
  next
    case Idle
    then show ?thesis using IH by simp
  qed
  then show ?case by (simp add: run_loop_snoc s_def)
qed


section \<open>Two executions\<close>

text \<open>A request for a file, to the end.\<close>

lemma success_trace:
  "trace (run_loop P0 success_inputs init) =
     [Entry (Some 0) InitModel (Post (progress ''model'' ''active'' msg_cdn)),
      Entry (Some 0) LoadTransformers (Call Import),
      Entry (Some 0) InitModel (Call PipelineCall),
      Entry (Some 0) InitModel (Post (progress ''model'' ''completed'' msg_model_ready)),
      Entry (Some 0) DecodeAudio (Post (progress ''decode'' ''active'' msg_decoding)),
      Entry (Some 0) DecodeAudio (Call NewContext),
      Entry (Some 0) DecodeAudio (Call (DecodeAudioData 0 [82, 73, 70, 70])),
      Entry (Some 0) DecodeAudio (Post (progress ''decode'' ''completed''
         (''0'' @ msg_channels @ ''0'' @ msg_hz @ ''0.0'' @ msg_sec))),
      Entry (Some 0) TranscribeAudio (Post (progress ''transcribe'' ''active'' msg_recognising)),
      Entry (Some 0) TranscribeAudio (Call (TranscriberCall 7 [0, 1 / 2]
         \<lparr>chunk_length_s = 30, stride_length_s = 5, language = ''ru'',
          task = ''transcribe'', sampling_rate = 44100\<rparr>)),
      Entry (Some 0) TranscribeAudio (Post (progress ''transcribe'' ''completed'' msg_recognised)),
      Entry (Some 0) ProcessFile (Post result_message0)]"
  by (simp add: success_inputs_def deliver_def target_def onmessage_eq resume_eqs
      transcribe0_def init_def file0_def P0_def buffer0_def result0_def result_message0_def
      numberOfChannels_def falsy_def)

text \<open>A request for a URL, up to the import that processFile waits for.\<close>

lemma url_trace:
  "trace (run_loop P0 url_inputs init) =
     [Entry (Some 0) ProcessUrl (Post (progress ''decode'' ''active'' msg_fetching)),
      Entry (Some 0) ProcessUrl (Call (Fetch (Some ''https://h/d/a.wav''))),
      Entry (Some 0) ProcessUrl (Call ArrayBufferOf),
      Entry (Some 0) InitModel (Post (progress ''model'' ''active'' msg_cdn)),
      Entry (Some 0) LoadTransformers (Call Import)]
   \<and> tasks (run_loop P0 url_inputs init) 0
       = Some (InImport FromUrl
           (Some \<lparr>name_f = ''a.wav'', size_f = 4, arrayBuffer = [82, 73, 70, 70]\<rparr>))"
  by (simp add: url_inputs_def url0_def deliver_def target_def onmessage_eq resume_eqs
      init_def P0_def file_name_of_def)


section \<open>The claims\<close>

subsection \<open>Progress messages\<close>

lemma msg_nonempty:
  "msg_cdn \<noteq> []" "msg_loaded \<noteq> []" "msg_model_ready \<noteq> []" "msg_decoding \<noteq> []"
  "msg_channels \<noteq> []" "msg_recognising \<noteq> []" "msg_recognised \<noteq> []" "msg_fetching \<noteq> []"
  by (simp_all add: msg_cdn_def msg_loaded_def msg_model_ready_def msg_decoding_def
      msg_channels_def msg_recognising_def msg_recognised_def msg_fetching_def)

lemma progress_fine_simps:
  "progress_fine (Entry w f (Call c))"
  "progress_fine (Entry w f (Raise x))"
  "progress_fine (Entry w f (Post (error_message x)))"
  "progress_fine (Entry w f (Post \<lparr>mtype = ''error'', mdata = md\<rparr>))"
  "progress_fine (Entry w f (Post \<lparr>mtype = ''result'', mdata = md\<rparr>))"
  "progress_fine (Entry w f (Post \<lparr>mtype = ''log'', mdata = md\<rparr>))"
  "progress_fine (Entry w f (Post \<lparr>mtype = ''pong'', mdata = md\<rparr>))"
  "st \<in> {''model'', ''decode'', ''transcribe''} \<Longrightarrow> status \<in> {''active'', ''completed''} \<Longrightarrow>
     n \<noteq> [] \<Longrightarrow> progress_fine (Entry w f (Post (progress st status n)))"
  by (simp_all add: progress_fine_def error_message_def progress_def well_formed_progress_def)

lemma progress_fine_added: "\<forall>e\<in>set (added P r fr i s). progress_fine e"
  by (cases rule: resume_cases [where fr = fr and i = i and P = P and r = r and s = s])
    (simp_all add: added_def resume_eqs Let_def progress_fine_simps msg_nonempty
      split: turn_splits)

lemma progress_fine_emitted: "\<forall>e\<in>set (emitted P i s). progress_fine e"
proof (cases rule: deliver_cases [where i = i and P = P and s = s])
  case (Message d)
  then show ?thesis
    by (simp add: emitted_def onmessage_eq progress_fine_simps msg_nonempty)
next
  case (ErrorEvent e)
  then show ?thesis by (simp add: emitted_def onerror_def progress_fine_simps)
next
  case (Run r fr)
  then show ?thesis using progress_fine_added [of P r fr i s] by (simp add: emitted_Run)
next
  case Idle
  then show ?thesis by (simp add: emitted_def)
qed

lemma progress_fine_run_loop: "\<forall>e\<in>set (trace (run_loop P ins init)). progress_fine e"
proof (induction ins rule: rev_induct)
  case Nil
  then show ?case by (simp add: init_def)
next
  case (snoc i ins)
  then show ?case
    using progress_fine_emitted [of P i "run_loop P ins init"]
    by (auto simp add: run_loop_snoc trace_deliver)
qed

text \<open>
  C3. Every message of type \<open>progress\<close> that the worker posts, in any
  execution, carries a step that is one of \<open>model\<close>, \<open>decode\<close> and
  \<open>transcribe\<close> (the source's name of the model-load stage is \<open>model\<close>), a
  status that is \<open>active\<close> or \<open>completed\<close>, and a message that is not empty.
\<close>

theorem progress_messages_well_formed:
  assumes "Entry w f (Post m) \<in> set (trace (run_loop P ins init))"
    and "mtype m = ''progress''"
  shows "\<exists>st status n. mdata m = ProgressData st status n
           \<and> st \<in> {''model'', ''decode'', ''transcribe''}
           \<and> status \<in> {''active'', ''completed''} \<and> n \<noteq> []"
proof -
  have "progress_fine (Entry w f (Post m))"
    using assms(1) progress_fine_run_loop by blast
  then have "well_formed_progress (mdata m)"
    using assms(2) by (simp add: progress_fine_def)
  then show ?thesis
    by (cases "mdata m") (simp_all add: well_formed_progress_def)
qed

theorem progress_messages_well_formed_witness:
  "Entry (Some 0) InitModel (Post (progress ''model'' ''completed'' msg_model_ready))
     \<in> set (trace (run_loop P0
          [Message transcribe0, ImportSettled 0 (Fulfilled ()), PipelineSettled 0 (Fulfilled 7)] init))
   \<and> mtype (progress ''model'' ''completed'' msg_model_ready) = ''progress''
   \<and> (\<exists>st status n.
         mdata (progress ''model'' ''completed'' msg_model_ready) = ProgressData st status n
         \<and> st \<in> {''model'', ''decode'', ''transcribe''}
         \<and> status \<in> {''active'', ''completed''} \<and> n \<noteq> [])"
proof -
  have a: "Entry (Some 0) InitModel (Post (progress ''model'' ''completed'' msg_model_ready))
     \<in> set (trace (run_loop P0
          [Message transcribe0, ImportSettled 0 (Fulfilled ()), PipelineSettled 0 (Fulfilled 7)] init))"
    by (simp add: deliver_def target_def onmessage_eq resume_eqs transcribe0_def init_def
        file0_def P0_def)
  have b: "mtype (progress ''model'' ''completed'' msg_model_ready) = ''progress''"
    by (simp add: progress_def)
  show ?thesis
    using a b progress_messages_well_formed [OF a b] by blast
qed

subsection \<open>Ping and unknown messages\<close>

text \<open>
  C10. A \<open>ping\<close> message makes the worker post exactly one \<open>pong\<close> and changes
  nothing else: the three variables and the suspended runs are as before. A
  message whose type is none of \<open>transcribe\<close>, \<open>transcribeUrl\<close>, \<open>cancel\<close>
  and \<open>ping\<close> changes nothing and posts nothing.
\<close>

theorem ping_and_unknown_messages:
  "(type_e d = ''ping'' \<longrightarrow>
      deliver P (Message d) s = s\<lparr>trace := trace s @ [Entry None OnMessage (Post pong)]\<rparr>
      \<and> emitted P (Message d) s = [Entry None OnMessage (Post pong)])
   \<and> (type_e d \<notin> {''transcribe'', ''transcribeUrl'', ''cancel'', ''ping''} \<longrightarrow>
      deliver P (Message d) s = s \<and> emitted P (Message d) s = [])"
  by (simp add: deliver_def emitted_def onmessage_def postMessage_def pong_def)

theorem ping_and_unknown_messages_witness:
  "type_e ping0 = ''ping''
   \<and> deliver P0 (Message ping0) init = init\<lparr>trace := trace init @ [Entry None OnMessage (Post pong)]\<rparr>
   \<and> emitted P0 (Message ping0) init = [Entry None OnMessage (Post pong)]
   \<and> type_e other0 \<notin> {''transcribe'', ''transcribeUrl'', ''cancel'', ''ping''}
   \<and> deliver P0 (Message other0) init = init \<and> emitted P0 (Message other0) init = []"
  using ping_and_unknown_messages [of ping0 P0 init] ping_and_unknown_messages [of other0 P0 init]
  by (simp add: ping0_def other0_def)

subsection \<open>The reset of the flag\<close>

text \<open>
  C9. A request, \<open>transcribe\<close> or \<open>transcribeUrl\<close>, sets the flag to false
  before anything else: the turn that handles it, and with it everything that
  follows, is the same whether the flag was set before or not, and the flag is
  false when the turn is over.
\<close>

theorem request_resets_flag:
  assumes "type_e d = ''transcribe'' \<or> type_e d = ''transcribeUrl''"
  shows "deliver P (Message d) (s\<lparr>cancelled := True\<rparr>) = deliver P (Message d) (s\<lparr>cancelled := False\<rparr>)
    \<and> \<not> cancelled (deliver P (Message d) s)
    \<and> run_loop P (Message d # rest) (s\<lparr>cancelled := True\<rparr>)
        = run_loop P (Message d # rest) (s\<lparr>cancelled := False\<rparr>)"
proof -
  have "deliver P (Message d) (s\<lparr>cancelled := True\<rparr>) = deliver P (Message d) (s\<lparr>cancelled := False\<rparr>)"
    using assms by (auto simp add: deliver_def onmessage_eq)
  moreover have "\<not> cancelled (deliver P (Message d) s)"
    using assms by (auto simp add: deliver_def onmessage_eq)
  ultimately show ?thesis by simp
qed

theorem request_resets_flag_witness:
  "(type_e transcribe0 = ''transcribe'' \<or> type_e transcribe0 = ''transcribeUrl'')
   \<and> deliver P0 (Message transcribe0) (init\<lparr>cancelled := True\<rparr>)
        = deliver P0 (Message transcribe0) (init\<lparr>cancelled := False\<rparr>)
   \<and> \<not> cancelled (deliver P0 (Message transcribe0) init)
   \<and> run_loop P0 [Message transcribe0, ImportSettled 0 (Fulfilled ())] (init\<lparr>cancelled := True\<rparr>)
        = run_loop P0 [Message transcribe0, ImportSettled 0 (Fulfilled ())] (init\<lparr>cancelled := False\<rparr>)"
proof -
  have a: "type_e transcribe0 = ''transcribe'' \<or> type_e transcribe0 = ''transcribeUrl''"
    by (simp add: transcribe0_def)
  show ?thesis
    using a request_resets_flag [OF a, of P0 init "[ImportSettled 0 (Fulfilled ())]"] by simp
qed


subsection \<open>The result message\<close>

lemma posts_simps [simp]:
  "posts ty (Entry w f (Post m)) = (mtype m = ty)"
  "posts ty (Entry w f (Call c)) = False"
  "posts ty (Entry w f (Raise x)) = False"
  "posts ty (Entry w f (Unhandled x)) = False"
  by (simp_all add: posts_def)

lemma mtype_simps [simp]:
  "mtype (progress st status n) = ''progress''"
  "mtype (error_message x) = ''error''"
  by (simp_all add: progress_def error_message_def)

text \<open>The only place where a result is posted.\<close>

lemma result_added:
  "\<forall>e\<in>set (added P r fr i s). posts ''result'' e \<longrightarrow>
     (\<exists>c fd b r' res f. fr = InTranscribe c fd b \<and> i = TranscriberSettled r' (Fulfilled res)
        \<and> fd = Some f \<and> \<not> cancelled s \<and> text_r res \<noteq> []
        \<and> tasks (resume P r fr i s) r = None
        \<and> e = Entry (Some r) ProcessFile (Post
             \<lparr>mtype = ''result'',
              mdata = ResultData (text_r res)
                \<lparr>a_duration = duration b, a_sampleRate = sampleRate b,
                 a_numberOfChannels = numberOfChannels b\<rparr>
                \<lparr>f_name = name_f f, f_size = size_f f\<rparr>\<rparr>))"
  by (cases rule: resume_cases [where fr = fr and i = i and P = P and r = r and s = s])
    (simp_all add: added_def resume_eqs Let_def falsy_def split: turn_splits)

lemma result_emitted:
  assumes "e \<in> set (emitted P i s)" and "posts ''result'' e"
  shows "\<exists>r c f b res. i = TranscriberSettled r (Fulfilled res)
           \<and> tasks s r = Some (InTranscribe c (Some f) b) \<and> \<not> cancelled s \<and> text_r res \<noteq> []
           \<and> tasks (deliver P i s) r = None
           \<and> e = Entry (Some r) ProcessFile (Post
               \<lparr>mtype = ''result'',
                mdata = ResultData (text_r res)
                  \<lparr>a_duration = duration b, a_sampleRate = sampleRate b,
                   a_numberOfChannels = numberOfChannels b\<rparr>
                  \<lparr>f_name = name_f f, f_size = size_f f\<rparr>\<rparr>)"
proof (cases rule: deliver_cases [where i = i and P = P and s = s])
  case (Message d)
  then show ?thesis
    using assms by (auto simp add: emitted_def onmessage_eq split: if_splits)
next
  case (ErrorEvent x)
  then show ?thesis using assms by (simp add: emitted_def onerror_def)
next
  case (Run r fr)
  then have "e \<in> set (added P r fr i s)" using assms(1) by (simp add: emitted_Run)
  then obtain c fd b r' res f where *: "fr = InTranscribe c fd b"
      "i = TranscriberSettled r' (Fulfilled res)" "fd = Some f" "\<not> cancelled s" "text_r res \<noteq> []"
      "tasks (resume P r fr i s) r = None"
      "e = Entry (Some r) ProcessFile (Post
             \<lparr>mtype = ''result'',
              mdata = ResultData (text_r res)
                \<lparr>a_duration = duration b, a_sampleRate = sampleRate b,
                 a_numberOfChannels = numberOfChannels b\<rparr>
                \<lparr>f_name = name_f f, f_size = size_f f\<rparr>\<rparr>)"
    using result_added [of P r fr i s] assms(2) by blast
  moreover have "r' = r" using Run(1) *(2) by (simp add: target_def)
  ultimately show ?thesis using Run by auto
next
  case Idle
  then show ?thesis using assms by (simp add: emitted_def)
qed

text \<open>
  C7. The text of every \<open>result\<close> message is the text that the pipeline call
  of the posting run returned: the message is posted in the turn in which that
  call settles, and its text field is the \<open>text\<close> of the settlement.
\<close>

theorem result_text_is_pipeline_text:
  assumes "Entry w f (Post m) \<in> set (trace (run_loop P ins init))"
    and "mtype m = ''result''"
  shows "\<exists>pre post r c fd b res.
           ins = pre @ TranscriberSettled r (Fulfilled res) # post
           \<and> tasks (run_loop P pre init) r = Some (InTranscribe c fd b)
           \<and> Entry w f (Post m)
                \<in> set (emitted P (TranscriberSettled r (Fulfilled res)) (run_loop P pre init))
           \<and> w = Some r \<and> rtext (mdata m) = text_r res"
  using assms(1)
proof (induction ins rule: rev_induct)
  case Nil
  then show ?case by (simp add: init_def)
next
  case (snoc i ins)
  define s where "s = run_loop P ins init"
  from snoc.prems
  consider "Entry w f (Post m) \<in> set (trace s)" | "Entry w f (Post m) \<in> set (emitted P i s)"
    by (auto simp add: run_loop_snoc trace_deliver s_def)
  then show ?case
  proof cases
    case 1
    then obtain pre post r c fd b res where
      "ins = pre @ TranscriberSettled r (Fulfilled res) # post"
      "tasks (run_loop P pre init) r = Some (InTranscribe c fd b)"
      "Entry w f (Post m)
         \<in> set (emitted P (TranscriberSettled r (Fulfilled res)) (run_loop P pre init))"
      "w = Some r" "rtext (mdata m) = text_r res"
      using snoc.IH by (auto simp add: s_def)
    then have "ins @ [i] = pre @ TranscriberSettled r (Fulfilled res) # (post @ [i])
        \<and> tasks (run_loop P pre init) r = Some (InTranscribe c fd b)
        \<and> Entry w f (Post m)
             \<in> set (emitted P (TranscriberSettled r (Fulfilled res)) (run_loop P pre init))
        \<and> w = Some r \<and> rtext (mdata m) = text_r res"
      by simp
    then show ?thesis by blast
  next
    case 2
    then obtain r c f' b res where
      "i = TranscriberSettled r (Fulfilled res)"
      "tasks s r = Some (InTranscribe c (Some f') b)"
      "Entry w f (Post m) = Entry (Some r) ProcessFile (Post
               \<lparr>mtype = ''result'',
                mdata = ResultData (text_r res)
                  \<lparr>a_duration = duration b, a_sampleRate = sampleRate b,
                   a_numberOfChannels = numberOfChannels b\<rparr>
                  \<lparr>f_name = name_f f', f_size = size_f f'\<rparr>\<rparr>)"
      using result_emitted [of "Entry w f (Post m)" P i s] assms(2) by auto
    then have "ins @ [i] = ins @ TranscriberSettled r (Fulfilled res) # []
        \<and> tasks (run_loop P ins init) r = Some (InTranscribe c (Some f') b)
        \<and> Entry w f (Post m)
             \<in> set (emitted P (TranscriberSettled r (Fulfilled res)) (run_loop P ins init))
        \<and> w = Some r \<and> rtext (mdata m) = text_r res"
      using 2 by (auto simp add: s_def)
    then show ?thesis by blast
  qed
qed

theorem result_text_is_pipeline_text_witness:
  "Entry (Some 0) ProcessFile (Post result_message0) \<in> set (trace (run_loop P0 success_inputs init))
   \<and> mtype result_message0 = ''result''
   \<and> (\<exists>pre post r c fd b res.
           success_inputs = pre @ TranscriberSettled r (Fulfilled res) # post
           \<and> tasks (run_loop P0 pre init) r = Some (InTranscribe c fd b)
           \<and> Entry (Some 0) ProcessFile (Post result_message0)
                \<in> set (emitted P0 (TranscriberSettled r (Fulfilled res)) (run_loop P0 pre init))
           \<and> Some 0 = Some r \<and> rtext (mdata result_message0) = text_r res)"
proof -
  have a: "Entry (Some 0) ProcessFile (Post result_message0)
             \<in> set (trace (run_loop P0 success_inputs init))"
    by (simp add: success_trace)
  have b: "mtype result_message0 = ''result''"
    by (simp add: result_message0_def)
  show ?thesis
    using a b result_text_is_pipeline_text [OF a b] by blast
qed


subsection \<open>The pipeline call\<close>

lemma transcriber_calls_simps [simp]:
  "transcriber_calls [] = []"
  "transcriber_calls (xs @ ys) = transcriber_calls xs @ transcriber_calls ys"
  "transcriber_calls (Entry w f (Post m) # t) = transcriber_calls t"
  "transcriber_calls (Entry w f (Raise x) # t) = transcriber_calls t"
  "transcriber_calls (Entry w f (Unhandled x) # t) = transcriber_calls t"
  "transcriber_calls (Entry w f (Call Import) # t) = transcriber_calls t"
  "transcriber_calls (Entry w f (Call PipelineCall) # t) = transcriber_calls t"
  "transcriber_calls (Entry w f (Call NewContext) # t) = transcriber_calls t"
  "transcriber_calls (Entry w f (Call (DecodeAudioData cx ab)) # t) = transcriber_calls t"
  "transcriber_calls (Entry w f (Call (Fetch u)) # t) = transcriber_calls t"
  "transcriber_calls (Entry w f (Call ArrayBufferOf) # t) = transcriber_calls t"
  "transcriber_calls (Entry w f (Call (TranscriberCall h a opts)) # t)
     = TranscriberCall h a opts # transcriber_calls t"
  by (simp_all add: transcriber_calls_def)

lemma transcriber_calls_member:
  "c \<in> set (transcriber_calls t) \<Longrightarrow>
   \<exists>w f h a opts. c = TranscriberCall h a opts \<and> Entry w f (Call c) \<in> set t"
proof (induction t)
  case Nil
  then show ?case by simp
next
  case (Cons e t)
  obtain w f x where e: "e = Entry w f x" by (cases e)
  show ?case
  proof (cases "c \<in> set (transcriber_calls t)")
    case True
    then show ?thesis using Cons.IH by auto
  next
    case False
    then have "c \<in> set (transcriber_calls [e])"
      using Cons.prems transcriber_calls_simps(2) [of "[e]" t] by auto
    then show ?thesis
      by (auto simp add: transcriber_calls_def e split: action.splits call.splits)
  qed
qed

text \<open>The only place where the pipeline is called.\<close>

lemma call_added:
  "\<forall>e\<in>set (added P r fr i s). \<forall>h a opts. act e = Call (TranscriberCall h a opts) \<longrightarrow>
     (\<exists>c fd b r'. fr = InDecode c fd \<and> i = DecodeSettled r' (Fulfilled b)
        \<and> a = channel0 b
        \<and> opts = \<lparr>chunk_length_s = 30, stride_length_s = 5, language = ''ru'',
                   task = ''transcribe'', sampling_rate = sampleRate b\<rparr>)"
  by (cases rule: resume_cases [where fr = fr and i = i and P = P and r = r and s = s])
    (simp_all add: added_def resume_eqs Let_def split: turn_splits)

lemma call_emitted:
  assumes "Entry w f (Call (TranscriberCall h a opts)) \<in> set (emitted P i s)"
  shows "\<exists>r c fd b. i = DecodeSettled r (Fulfilled b) \<and> tasks s r = Some (InDecode c fd)
           \<and> w = Some r \<and> a = channel0 b
           \<and> opts = \<lparr>chunk_length_s = 30, stride_length_s = 5, language = ''ru'',
                      task = ''transcribe'', sampling_rate = sampleRate b\<rparr>"
proof (cases rule: deliver_cases [where i = i and P = P and s = s])
  case (Message d)
  then show ?thesis
    using assms by (auto simp add: emitted_def onmessage_eq split: if_splits)
next
  case (ErrorEvent x)
  then show ?thesis using assms by (simp add: emitted_def onerror_def)
next
  case (Run r fr)
  then have mem: "Entry w f (Call (TranscriberCall h a opts)) \<in> set (added P r fr i s)"
    using assms by (simp add: emitted_Run)
  then obtain c fd b r' where *: "fr = InDecode c fd" "i = DecodeSettled r' (Fulfilled b)"
      "a = channel0 b"
      "opts = \<lparr>chunk_length_s = 30, stride_length_s = 5, language = ''ru'',
               task = ''transcribe'', sampling_rate = sampleRate b\<rparr>"
    using call_added [of P r fr i s] by fastforce
  moreover have "r' = r" using Run(1) *(2) by (simp add: target_def)
  moreover have "w = Some r" using who_added [OF mem] by simp
  ultimately show ?thesis using Run by auto
next
  case Idle
  then show ?thesis using assms by (simp add: emitted_def)
qed

lemma call_history:
  assumes "Entry w f (Call (TranscriberCall h a opts)) \<in> set (trace (run_loop P ins init))"
  shows "\<exists>pre post r c fd b. ins = pre @ DecodeSettled r (Fulfilled b) # post
           \<and> tasks (run_loop P pre init) r = Some (InDecode c fd)
           \<and> w = Some r \<and> a = channel0 b
           \<and> opts = \<lparr>chunk_length_s = 30, stride_length_s = 5, language = ''ru'',
                      task = ''transcribe'', sampling_rate = sampleRate b\<rparr>"
  using assms
proof (induction ins rule: rev_induct)
  case Nil
  then show ?case by (simp add: init_def)
next
  case (snoc i ins)
  define s where "s = run_loop P ins init"
  from snoc.prems
  consider "Entry w f (Call (TranscriberCall h a opts)) \<in> set (trace s)"
    | "Entry w f (Call (TranscriberCall h a opts)) \<in> set (emitted P i s)"
    by (auto simp add: run_loop_snoc trace_deliver s_def)
  then show ?case
  proof cases
    case 1
    then obtain pre post r c fd b where
      "ins = pre @ DecodeSettled r (Fulfilled b) # post"
      "tasks (run_loop P pre init) r = Some (InDecode c fd)"
      "w = Some r" "a = channel0 b"
      "opts = \<lparr>chunk_length_s = 30, stride_length_s = 5, language = ''ru'',
               task = ''transcribe'', sampling_rate = sampleRate b\<rparr>"
      using snoc.IH by (auto simp add: s_def)
    then have "ins @ [i] = pre @ DecodeSettled r (Fulfilled b) # (post @ [i])
        \<and> tasks (run_loop P pre init) r = Some (InDecode c fd)
        \<and> w = Some r \<and> a = channel0 b
        \<and> opts = \<lparr>chunk_length_s = 30, stride_length_s = 5, language = ''ru'',
                   task = ''transcribe'', sampling_rate = sampleRate b\<rparr>"
      by simp
    then show ?thesis by blast
  next
    case 2
    then obtain r c fd b where
      "i = DecodeSettled r (Fulfilled b)" "tasks s r = Some (InDecode c fd)"
      "w = Some r" "a = channel0 b"
      "opts = \<lparr>chunk_length_s = 30, stride_length_s = 5, language = ''ru'',
               task = ''transcribe'', sampling_rate = sampleRate b\<rparr>"
      using call_emitted [of w f h a opts P i s] by auto
    then have "ins @ [i] = ins @ DecodeSettled r (Fulfilled b) # []
        \<and> tasks (run_loop P ins init) r = Some (InDecode c fd)
        \<and> w = Some r \<and> a = channel0 b
        \<and> opts = \<lparr>chunk_length_s = 30, stride_length_s = 5, language = ''ru'',
                   task = ''transcribe'', sampling_rate = sampleRate b\<rparr>"
      by (simp add: s_def)
    then show ?thesis by blast
  qed
qed

lemma called_once_start:
  "tasks s (next_id s) = None \<Longrightarrow>
   called_once (tasks (onmessage P d s) (next_id s))
     (run_trace (next_id s) (emitted P (Message d) s))"
  by (simp add: emitted_def deliver_def onmessage_eq run_trace_def called_once_def)

lemma called_once_step:
  "tasks s r = Some fr \<Longrightarrow> called_once (Some fr) t \<Longrightarrow>
   called_once (tasks (resume P r fr i s) r) (t @ added P r fr i s)"
  by (cases rule: resume_cases [where fr = fr and i = i and P = P and r = r and s = s])
    (auto simp add: called_once_def added_def resume_eqs Let_def split: turn_splits)

lemma called_once_run_loop:
  "called_once (tasks (run_loop P ins init) r) (run_trace r (trace (run_loop P ins init)))"
proof (rule run_invariant [where J = called_once])
  show "called_once None []" by (simp add: called_once_def)
qed (erule called_once_start, erule (1) called_once_step)

text \<open>
  C6. A run that posts a result has called the pipeline exactly once: on
  channel 0 of the audio buffer that its decoding returned, with the options
  of lines 98-102, the sampling rate being the one of that buffer, which is
  also the one the result message reports.
\<close>

theorem pipeline_called_once:
  assumes "Entry (Some r) f (Post m) \<in> set (trace (run_loop P ins init))"
    and "mtype m = ''result''"
  shows "\<exists>h b pre post c fd.
           transcriber_calls (run_trace r (trace (run_loop P ins init)))
             = [TranscriberCall h (channel0 b)
                  \<lparr>chunk_length_s = 30, stride_length_s = 5, language = ''ru'',
                   task = ''transcribe'', sampling_rate = sampleRate b\<rparr>]
           \<and> ins = pre @ DecodeSettled r (Fulfilled b) # post
           \<and> tasks (run_loop P pre init) r = Some (InDecode c fd)
           \<and> a_sampleRate (raudio (mdata m)) = sampleRate b"
proof -
  define s where "s = run_loop P ins init"
  define t where "t = run_trace r (trace s)"
  have mem: "Entry (Some r) f (Post m) \<in> set t"
    using assms(1) by (simp add: t_def s_def run_trace_def)
  have res: "posts ''result'' (Entry (Some r) f (Post m))"
    using assms(2) by simp
  have inv: "called_once (tasks s r) t"
    using called_once_run_loop [of P ins r] by (simp add: s_def t_def)
  have "tasks s r = None"
  proof (cases "tasks s r")
    case None
    then show ?thesis .
  next
    case (Some fr)
    then have "\<forall>e\<in>set t. \<not> posts ''result'' e"
      using inv by (cases fr) (simp_all add: called_once_def)
    then show ?thesis using mem res by blast
  qed
  then obtain h a opts where calls: "transcriber_calls t = [TranscriberCall h a opts]"
    and rate: "a_sampleRate (raudio (mdata m)) = sampling_rate opts"
    using inv mem res by (fastforce simp add: called_once_def)
  have "TranscriberCall h a opts \<in> set (transcriber_calls t)"
    using calls by simp
  then obtain w g where "Entry w g (Call (TranscriberCall h a opts)) \<in> set t"
    using transcriber_calls_member by blast
  then have "Entry (Some r) g (Call (TranscriberCall h a opts)) \<in> set (trace s)"
    by (auto simp add: t_def run_trace_def)
  then obtain pre post c fd b where
    "ins = pre @ DecodeSettled r (Fulfilled b) # post"
    "tasks (run_loop P pre init) r = Some (InDecode c fd)"
    "a = channel0 b"
    "opts = \<lparr>chunk_length_s = 30, stride_length_s = 5, language = ''ru'',
             task = ''transcribe'', sampling_rate = sampleRate b\<rparr>"
    using call_history [of "Some r" g h a opts P ins] by (auto simp add: s_def)
  then show ?thesis
    using calls rate by (auto simp add: t_def s_def)
qed

theorem pipeline_called_once_witness:
  "Entry (Some 0) ProcessFile (Post result_message0) \<in> set (trace (run_loop P0 success_inputs init))
   \<and> mtype result_message0 = ''result''
   \<and> (\<exists>h b pre post c fd.
           transcriber_calls (run_trace 0 (trace (run_loop P0 success_inputs init)))
             = [TranscriberCall h (channel0 b)
                  \<lparr>chunk_length_s = 30, stride_length_s = 5, language = ''ru'',
                   task = ''transcribe'', sampling_rate = sampleRate b\<rparr>]
           \<and> success_inputs = pre @ DecodeSettled 0 (Fulfilled b) # post
           \<and> tasks (run_loop P0 pre init) 0 = Some (InDecode c fd)
           \<and> a_sampleRate (raudio (mdata result_message0)) = sampleRate b)"
proof -
  have a: "Entry (Some 0) ProcessFile (Post result_message0)
             \<in> set (trace (run_loop P0 success_inputs init))"
    by (simp add: success_trace)
  have b: "mtype result_message0 = ''result''"
    by (simp add: result_message0_def)
  show ?thesis
    using a b pipeline_called_once [OF a b] by blast
qed


subsection \<open>Runs that are over\<close>

lemma active_started: "tasks (run_loop P ins init) r = Some fr \<Longrightarrow> r < next_id (run_loop P ins init)"
  using fresh_run_loop [of P ins r] by (cases "next_id (run_loop P ins init) \<le> r") auto

lemma over_deliver:
  assumes "tasks s r = None" and "r < next_id s"
  shows "run_trace r (emitted P i s) = [] \<and> tasks (deliver P i s) r = None
           \<and> r < next_id (deliver P i s)"
proof (cases rule: deliver_cases [where i = i and P = P and s = s])
  case (Message d)
  have "run_trace r (emitted P (Message d) s) = []"
    using who_onmessage [of _ P d s] assms(2) by (intro run_trace_other [of _ "next_id s"]) auto
  then show ?thesis
    using Message assms tasks_onmessage_other [of r s P d] next_id_onmessage [of s P d]
    by simp
next
  case (ErrorEvent x)
  then show ?thesis using assms by (simp add: emitted_def onerror_def run_trace_def)
next
  case (Run r0 fr)
  then have ne: "r \<noteq> r0" using assms(1) by auto
  have "run_trace r (added P r0 fr i s) = []"
    using who_added [of _ P r0 fr i s] ne by (intro run_trace_other [of _ r0]) auto
  then show ?thesis
    using Run assms ne tasks_resume_other [of r r0 P fr i s]
    by (simp add: emitted_Run next_id_resume)
next
  case Idle
  then show ?thesis using assms by (simp add: emitted_def)
qed

text \<open>A run that is over adds nothing to the trace, whatever comes.\<close>

lemma over_run_loop:
  "tasks s r = None \<Longrightarrow> r < next_id s \<Longrightarrow>
   run_trace r (trace (run_loop P ins s)) = run_trace r (trace s)
     \<and> tasks (run_loop P ins s) r = None"
proof (induction ins arbitrary: s)
  case Nil
  then show ?case by simp
next
  case (Cons i ins)
  have "run_trace r (emitted P i s) = []" "tasks (deliver P i s) r = None"
    "r < next_id (deliver P i s)"
    using over_deliver [OF Cons.prems, of P i] by simp_all
  then show ?case
    using Cons.IH [of "deliver P i s"] by (simp add: trace_deliver)
qed

subsection \<open>Cancellation is silent\<close>

lemma quiet_start:
  "tasks s (next_id s) = None \<Longrightarrow>
   quiet (tasks (onmessage P d s) (next_id s)) (run_trace (next_id s) (emitted P (Message d) s))"
  by (simp add: emitted_def deliver_def onmessage_eq run_trace_def quiet_def)

lemma quiet_added:
  "tasks (resume P r fr i s) r \<noteq> None \<longrightarrow>
     (\<forall>e\<in>set (added P r fr i s). \<not> posts ''result'' e \<and> \<not> posts ''error'' e)"
  by (cases rule: resume_cases [where fr = fr and i = i and P = P and r = r and s = s])
    (simp_all add: added_def resume_eqs Let_def split: turn_splits)

lemma quiet_step:
  "tasks s r = Some fr \<Longrightarrow> quiet (Some fr) t \<Longrightarrow>
   quiet (tasks (resume P r fr i s) r) (t @ added P r fr i s)"
  using quiet_added [of P r fr i s]
  by (cases "tasks (resume P r fr i s) r") (auto simp add: quiet_def)

lemma quiet_run_loop:
  "quiet (tasks (run_loop P ins init) r) (run_trace r (trace (run_loop P ins init)))"
proof (rule run_invariant [where J = quiet])
  show "quiet None []" by (simp add: quiet_def)
qed (erule quiet_start, erule (1) quiet_step)

lemma cancel_exit_cases:
  assumes "cancel_exit fr i s"
  obtains c fd r' out where "fr = InPipeline c fd" "i = PipelineSettled r' out"
  | c fd r' out where "fr = InDecode c fd" "i = DecodeSettled r' out"
  | c fd b r' out where "fr = InTranscribe c fd b" "i = TranscriberSettled r' out"
  | u r' out where "fr = InBody u" "i = BodySettled r' out"
  using assms by (cases fr; cases i) (simp_all add: cancel_exit_def)

lemma cancel_exit_added:
  assumes "cancel_exit fr i s"
  shows "tasks (resume P r fr i s) r = None \<and> (\<forall>e\<in>set (added P r fr i s). posts ''progress'' e)"
  using assms
  by (cases rule: cancel_exit_cases [OF assms])
    (simp_all add: cancel_exit_def added_def resume_eqs Let_def split: settled.splits)

text \<open>
  C8. A run that ends by cancellation is silent: the turn in which it ends
  adds at most the progress message of the step that has just returned, the
  run is over after it, and the whole run, before and after, posts neither a
  \<open>result\<close> nor an \<open>error\<close>. The handler of \<open>cancel\<close> posts its one \<open>log\<close>.
\<close>

theorem cancelled_run_is_silent:
  assumes "tasks (run_loop P pre init) r = Some fr"
    and "target i = Some r"
    and "cancel_exit fr i (run_loop P pre init)"
  shows "(\<forall>e\<in>set (run_trace r (trace (run_loop P (pre @ i # post) init))).
            \<not> posts ''result'' e \<and> \<not> posts ''error'' e)
    \<and> (\<forall>e\<in>set (emitted P i (run_loop P pre init)). posts ''progress'' e)
    \<and> tasks (run_loop P (pre @ i # post) init) r = None
    \<and> (type_e d = ''cancel'' \<longrightarrow>
         emitted P (Message d) s = [Entry None OnMessage (Post cancel_log)]
         \<and> cancelled (deliver P (Message d) s))"
proof -
  define s0 where "s0 = run_loop P pre init"
  define s1 where "s1 = deliver P i s0"
  have dl: "s1 = resume P r fr i s0" and em: "emitted P i s0 = added P r fr i s0"
    using assms(1,2) by (cases i; simp add: s1_def s0_def deliver_def target_def emitted_Run)+
  have over: "tasks s1 r = None" and prog: "\<forall>e\<in>set (added P r fr i s0). posts ''progress'' e"
    using cancel_exit_added [of fr i s0 P r] assms(3) by (simp_all add: dl s0_def)
  have "quiet (Some fr) (run_trace r (trace s0))"
    using quiet_run_loop [of P pre r] assms(1) by (simp add: s0_def)
  then have before: "\<forall>e\<in>set (run_trace r (trace s0)). \<not> posts ''result'' e \<and> \<not> posts ''error'' e"
    by (simp add: quiet_def)
  have now: "\<forall>e\<in>set (added P r fr i s0). \<not> posts ''result'' e \<and> \<not> posts ''error'' e"
    using prog by (auto simp add: posts_def split: action.splits)
  have lt: "r < next_id s1"
    using active_started [OF assms(1)] by (simp add: dl next_id_resume s0_def)
  have after: "run_trace r (trace (run_loop P post s1)) = run_trace r (trace s1)"
      "tasks (run_loop P post s1) r = None"
    using over_run_loop [OF over lt, of P post] by simp_all
  have tr1: "run_trace r (trace s1) = run_trace r (trace s0) @ run_trace r (added P r fr i s0)"
    using trace_resume [of P r fr i s0] by (simp add: dl)
  have whole: "run_loop P (pre @ i # post) init = run_loop P post s1"
    by (simp add: run_loop_append s1_def s0_def)
  have "run_trace r (trace (run_loop P (pre @ i # post) init))
          = run_trace r (trace s0) @ run_trace r (added P r fr i s0)"
    by (simp add: whole after tr1)
  moreover have "set (run_trace r (added P r fr i s0)) \<subseteq> set (added P r fr i s0)"
    by (simp add: run_trace_def)
  ultimately have "\<forall>e\<in>set (run_trace r (trace (run_loop P (pre @ i # post) init))).
            \<not> posts ''result'' e \<and> \<not> posts ''error'' e"
    using before now by auto
  moreover have "\<forall>e\<in>set (emitted P i (run_loop P pre init)). posts ''progress'' e"
    using prog em by (simp add: s0_def)
  moreover have "tasks (run_loop P (pre @ i # post) init) r = None"
    using after by (simp add: whole)
  moreover have "type_e d = ''cancel'' \<longrightarrow>
         emitted P (Message d) s = [Entry None OnMessage (Post cancel_log)]
         \<and> cancelled (deliver P (Message d) s)"
    by (simp add: emitted_def deliver_def onmessage_eq cancel_log_def)
  ultimately show ?thesis by blast
qed

lemma cancelled_state:
  "tasks (run_loop P0 cancelled_inputs init) 0 = Some (InDecode FromMessage (Some file0))
   \<and> cancelled (run_loop P0 cancelled_inputs init)"
  by (simp add: cancelled_inputs_def decoding_inputs_def deliver_def target_def onmessage_eq
      resume_eqs transcribe0_def cancel0_def init_def file0_def P0_def)

theorem cancelled_run_is_silent_witness:
  "tasks (run_loop P0 cancelled_inputs init) 0 = Some (InDecode FromMessage (Some file0))
   \<and> target (DecodeSettled 0 (Fulfilled buffer0)) = Some 0
   \<and> cancel_exit (InDecode FromMessage (Some file0)) (DecodeSettled 0 (Fulfilled buffer0))
       (run_loop P0 cancelled_inputs init)
   \<and> list_all (\<lambda>e. \<not> posts ''result'' e \<and> \<not> posts ''error'' e)
         (run_trace 0 (trace (run_loop P0
            (cancelled_inputs @ DecodeSettled 0 (Fulfilled buffer0) # [Message ping0]) init)))
   \<and> list_all (posts ''progress'')
         (emitted P0 (DecodeSettled 0 (Fulfilled buffer0)) (run_loop P0 cancelled_inputs init))
   \<and> tasks (run_loop P0
        (cancelled_inputs @ DecodeSettled 0 (Fulfilled buffer0) # [Message ping0]) init) 0 = None
   \<and> type_e cancel0 = ''cancel''
   \<and> emitted P0 (Message cancel0) init = [Entry None OnMessage (Post cancel_log)]
   \<and> cancelled (deliver P0 (Message cancel0) init)"
proof -
  have a: "tasks (run_loop P0 cancelled_inputs init) 0 = Some (InDecode FromMessage (Some file0))"
    using cancelled_state by simp
  have b: "target (DecodeSettled 0 (Fulfilled buffer0)) = Some 0"
    by (simp add: target_def)
  have c: "cancel_exit (InDecode FromMessage (Some file0)) (DecodeSettled 0 (Fulfilled buffer0))
       (run_loop P0 cancelled_inputs init)"
    using cancelled_state by (simp add: cancel_exit_def)
  have d: "type_e cancel0 = ''cancel''"
    by (simp add: cancel0_def)
  show ?thesis
    using a b c d
      cancelled_run_is_silent [OF a b c, where post = "[Message ping0]" and d = cancel0 and s = init]
    by (simp add: list_all_iff)
qed


subsection \<open>Errors are forwarded\<close>

lemma is_unhandled_simps [simp]:
  "is_unhandled (Entry w f (Post m)) = False"
  "is_unhandled (Entry w f (Call c)) = False"
  "is_unhandled (Entry w f (Raise x)) = False"
  "is_unhandled (Entry w f (Unhandled x)) = True"
  by (simp_all add: is_unhandled_def)












subsection \<open>The order of the steps\<close>

lemma completes_simps [simp]:
  "completes st (Entry w f (Post (progress a b n))) = (a = st \<and> b = ''completed'')"
  "completes st (Entry w f (Post (error_message x))) = False"
  "completes st (Entry w f (Post \<lparr>mtype = ''result'', mdata = md\<rparr>)) = False"
  "completes st (Entry w f (Call c)) = False"
  "completes st (Entry w f (Raise x)) = False"
  by (simp_all add: completes_def progress_def error_message_def)

lemma in_order_start:
  "tasks s (next_id s) = None \<Longrightarrow>
   in_order (tasks (onmessage P d s) (next_id s))
     (run_trace (next_id s) (emitted P (Message d) s))"
  by (simp add: emitted_def deliver_def onmessage_eq run_trace_def in_order_def acts_def
      reported_def)

text \<open>What a resumption adds is in order, and belongs to the step the run is in or to later ones.\<close>

lemma order_added:
  "tasks s r = Some fr \<Longrightarrow>
   sorted (map (\<lambda>e. rank (fn e)) (added P r fr i s))
   \<and> list_all (\<lambda>e. stage fr \<le> rank (fn e)) (added P r fr i s)
   \<and> (acts DecodeAudio (added P r fr i s) \<longrightarrow>
        2 \<le> stage fr \<or> reported InitModel ''model'' (added P r fr i s))
   \<and> (acts TranscribeAudio (added P r fr i s) \<longrightarrow>
        3 \<le> stage fr \<or> reported DecodeAudio ''decode'' (added P r fr i s))
   \<and> (case tasks (resume P r fr i s) r of
        None \<Rightarrow> True
      | Some fr' \<Rightarrow>
          stage fr \<le> stage fr'
          \<and> list_all (\<lambda>e. rank (fn e) \<le> stage fr') (added P r fr i s)
          \<and> (2 \<le> stage fr' \<longrightarrow> 2 \<le> stage fr \<or> reported InitModel ''model'' (added P r fr i s))
          \<and> (3 \<le> stage fr' \<longrightarrow>
                3 \<le> stage fr \<or> reported DecodeAudio ''decode'' (added P r fr i s)))"
  by (cases rule: resume_cases [where fr = fr and i = i and P = P and r = r and s = s])
    (simp_all add: added_def resume_eqs Let_def acts_def reported_def split: turn_splits)

lemma in_order_step:
  assumes "tasks s r = Some fr" and "in_order (Some fr) t"
  shows "in_order (tasks (resume P r fr i s) r) (t @ added P r fr i s)"
proof -
  let ?es = "added P r fr i s"
  have t: "sorted (map (\<lambda>e. rank (fn e)) t)" "\<forall>e\<in>set t. rank (fn e) \<le> stage fr"
    "acts DecodeAudio t \<longrightarrow> reported InitModel ''model'' t"
    "acts TranscribeAudio t \<longrightarrow> reported DecodeAudio ''decode'' t"
    "2 \<le> stage fr \<longrightarrow> reported InitModel ''model'' t"
    "3 \<le> stage fr \<longrightarrow> reported DecodeAudio ''decode'' t"
    using assms(2) by (simp_all add: in_order_def list_all_iff)
  have es: "sorted (map (\<lambda>e. rank (fn e)) ?es)" "\<forall>e\<in>set ?es. stage fr \<le> rank (fn e)"
    "acts DecodeAudio ?es \<longrightarrow> 2 \<le> stage fr \<or> reported InitModel ''model'' ?es"
    "acts TranscribeAudio ?es \<longrightarrow> 3 \<le> stage fr \<or> reported DecodeAudio ''decode'' ?es"
    using order_added [OF assms(1), of P i] by (simp_all add: list_all_iff)
  have app: "\<And>f. acts f (t @ ?es) = (acts f t \<or> acts f ?es)"
    "\<And>f st. reported f st (t @ ?es) = (reported f st t \<or> reported f st ?es)"
    by (simp_all add: acts_def reported_def)
  have "sorted (map (\<lambda>e. rank (fn e)) (t @ ?es))"
    using t(1,2) es(1,2) by (fastforce simp add: sorted_append)
  moreover have "acts DecodeAudio (t @ ?es) \<longrightarrow> reported InitModel ''model'' (t @ ?es)"
    using t(3,5) es(3) by (auto simp add: app)
  moreover have "acts TranscribeAudio (t @ ?es) \<longrightarrow> reported DecodeAudio ''decode'' (t @ ?es)"
    using t(4,6) es(4) by (auto simp add: app)
  moreover have "case tasks (resume P r fr i s) r of
        None \<Rightarrow> True
      | Some fr' \<Rightarrow>
          list_all (\<lambda>e. rank (fn e) \<le> stage fr') (t @ ?es)
          \<and> (2 \<le> stage fr' \<longrightarrow> reported InitModel ''model'' (t @ ?es))
          \<and> (3 \<le> stage fr' \<longrightarrow> reported DecodeAudio ''decode'' (t @ ?es))"
  proof (cases "tasks (resume P r fr i s) r")
    case None
    then show ?thesis by simp
  next
    case (Some fr')
    then have n: "stage fr \<le> stage fr'" "\<forall>e\<in>set ?es. rank (fn e) \<le> stage fr'"
      "2 \<le> stage fr' \<longrightarrow> 2 \<le> stage fr \<or> reported InitModel ''model'' ?es"
      "3 \<le> stage fr' \<longrightarrow> 3 \<le> stage fr \<or> reported DecodeAudio ''decode'' ?es"
      using order_added [OF assms(1), of P i] by (simp_all add: list_all_iff)
    have "\<forall>e\<in>set (t @ ?es). rank (fn e) \<le> stage fr'"
      using t(2) n(1,2) by fastforce
    then show ?thesis
      using Some t(5,6) n(3,4) by (auto simp add: app list_all_iff)
  qed
  ultimately show ?thesis
    by (simp add: in_order_def)
qed

lemma in_order_run_loop:
  "in_order (tasks (run_loop P ins init) r) (run_trace r (trace (run_loop P ins init)))"
proof (rule run_invariant [where J = in_order])
  show "in_order None []" by (simp add: in_order_def acts_def reported_def)
qed (erule in_order_start, erule (1) in_order_step)

text \<open>
  C1. In every run the three steps come in the fixed order: among the entries
  of a run, all of initModel (with loadTransformers and the progress callback)
  come before all of decodeAudio, which come before all of transcribeAudio,
  and the result or error of processFile comes last. decodeAudio does
  something only after initModel has reported its completion, and
  transcribeAudio only after decodeAudio has reported its completion.
\<close>

theorem steps_in_order:
  "sorted (map (\<lambda>e. rank (fn e)) (run_trace r (trace (run_loop P ins init))))
   \<and> (acts DecodeAudio (run_trace r (trace (run_loop P ins init))) \<longrightarrow>
        reported InitModel ''model'' (run_trace r (trace (run_loop P ins init))))
   \<and> (acts TranscribeAudio (run_trace r (trace (run_loop P ins init))) \<longrightarrow>
        reported DecodeAudio ''decode'' (run_trace r (trace (run_loop P ins init))))"
  using in_order_run_loop [of P ins r] by (simp add: in_order_def)

theorem steps_in_order_witness:
  "sorted (map (\<lambda>e. rank (fn e)) (run_trace 0 (trace (run_loop P0 success_inputs init))))
   \<and> acts DecodeAudio (run_trace 0 (trace (run_loop P0 success_inputs init)))
   \<and> reported InitModel ''model'' (run_trace 0 (trace (run_loop P0 success_inputs init)))
   \<and> acts TranscribeAudio (run_trace 0 (trace (run_loop P0 success_inputs init)))
   \<and> reported DecodeAudio ''decode'' (run_trace 0 (trace (run_loop P0 success_inputs init)))"
proof -
  have a: "acts DecodeAudio (run_trace 0 (trace (run_loop P0 success_inputs init)))"
    by (simp add: success_trace run_trace_def acts_def)
  have b: "acts TranscribeAudio (run_trace 0 (trace (run_loop P0 success_inputs init)))"
    by (simp add: success_trace run_trace_def acts_def)
  show ?thesis
    using a b steps_in_order [of 0 P0 success_inputs] by blast
qed


subsection \<open>What the flag stops\<close>







subsection \<open>Where the flag is read\<close>







lemma importing_state:
  "tasks (run_loop P0 importing_inputs init) 0 = Some (InImport FromMessage (Some file0))"
  by (simp add: importing_inputs_def deliver_def onmessage_eq transcribe0_def init_def)



end
